theory Spec2Isabelle
  imports Main "HOL-Library.Char_ord" "HOL-Library.List_Lexorder" "HOL-Library.Product_Lexorder"
begin

section \<open>Responses\<close>

text \<open>
  Every handler of \<^verbatim>\<open>server.js\<close> answers with \<^verbatim>\<open>res.status(n).json(...)\<close>. A failure is
  the value \<open>Inl e\<close>, where \<open>e\<close> names the status code the handler sends; \<open>http_status\<close>
  gives the number written in the source. A success is \<open>Inr\<close> of the payload.
\<close>

datatype error = BadRequest | Unauthorized | Forbidden | NotFound | Conflict | Internal

fun http_status :: "error \<Rightarrow> nat" where
  "http_status BadRequest = 400"
| "http_status Unauthorized = 401"
| "http_status Forbidden = 403"
| "http_status NotFound = 404"
| "http_status Conflict = 409"
| "http_status Internal = 500"

datatype success = Ok200 | Created201

section \<open>The relational schema (\<^verbatim>\<open>initializeDatabase\<close>)\<close>

text \<open>
  A table is the list of its rows in rowid order. Column names that occur in several
  tables carry the table's initial as a prefix. \<^verbatim>\<open>CURRENT_TIMESTAMP\<close> values are
  natural numbers (seconds); a \<^verbatim>\<open>CHECK(... IN (...))\<close> text column is a datatype of the
  admitted values. Text is compared byte by byte, a prefix before its extensions, which
  is the order of \<open>string\<close>.

  \<^verbatim>\<open>ORDER BY\<close> is a stable sort of the rows in the order in which the statement scans
  them: rowid order for a scan of the table, the order of the index for a search through
  the index of a \<^verbatim>\<open>UNIQUE\<close> constraint.
\<close>

datatype status = Pending | Accepted

datatype role = Admin | Member

record user =
  u_id :: int
  u_name :: string
  username :: "string option"
  email :: string
  password :: string
  is_admin :: "int option"
  u_created_at :: nat

record friendship =
  f_id :: int
  user1_id :: int
  user2_id :: int
  f_status :: status
  f_created_at :: nat

text \<open>
  JSON payload values, as \<^verbatim>\<open>express.json()\<close> hands them to a handler. The text columns
  \<^verbatim>\<open>grid_data\<close> and \<^verbatim>\<open>completed_data\<close> hold \<^verbatim>\<open>JSON.stringify\<close> of such a value and are
  read back with \<^verbatim>\<open>JSON.parse\<close>; the model stores the value the text denotes.
  Numbers are the whole numbers (grid sizes, ids, coordinates); fractions and the
  rounding of large doubles are left out.
\<close>

datatype json = JNull | JBool bool | JNum int | JStr string | JArr "json list"
  | JObj "(string \<times> json) list"

record card =
  card_id :: int
  card_user_id :: int
  card_size :: int
  grid_data :: json
  completed_data :: json
  card_created_at :: nat
  updated_at :: nat

record comment =
  c_id :: int
  author_id :: int
  card_owner_id :: int
  c_row :: int
  c_col :: int
  c_text :: string
  is_private :: bool
  c_created_at :: nat

record reaction =
  r_id :: int
  r_comment_id :: int
  r_user_id :: int
  emoji :: string
  r_created_at :: nat

record bgroup =
  g_id :: int
  g_name :: string
  creator_id :: int
  g_created_at :: nat

record group_member =
  gm_id :: int
  gm_group_id :: int
  gm_user_id :: int
  gm_role :: role
  gm_status :: status
  joined_at :: nat

record group_comment =
  gc_id :: int
  gc_group_id :: int
  gc_user_id :: int
  gc_text :: string
  gc_created_at :: nat

record group_comment_reaction =
  gcr_id :: int
  group_comment_id :: int
  gcr_user_id :: int
  gcr_emoji :: string
  gcr_created_at :: nat

text \<open>
  The database: one list per table, the \<^verbatim>\<open>AUTOINCREMENT\<close> counters that the inserts
  modelled below consume (\<^verbatim>\<open>sqlite_sequence\<close>), and \<^verbatim>\<open>hasUsernameColumn\<close>, the
  module-level flag that decides whether \<^verbatim>\<open>userQueries.findByUsername\<close> exists.
\<close>

record db =
  users :: "user list"
  bingo_cards :: "card list"
  friendships :: "friendship list"
  comments :: "comment list"
  reactions :: "reaction list"
  groups :: "bgroup list"
  group_members :: "group_member list"
  group_comments :: "group_comment list"
  group_comment_reactions :: "group_comment_reaction list"
  seq_bingo_cards :: int
  seq_friendships :: int
  seq_reactions :: int
  hasUsernameColumn :: bool

text \<open>
  \<^verbatim>\<open>AUTOINCREMENT\<close>: the new rowid is one more than the largest rowid the table has
  ever held.
\<close>

definition next_rowid :: "int \<Rightarrow> int list \<Rightarrow> int" where
  "next_rowid seq ids = fold max ids seq + 1"

section \<open>JavaScript truthiness\<close>

text \<open>
  A request field that may be absent is an \<open>option\<close>. \<^verbatim>\<open>!x\<close> holds of an absent field,
  of the empty string, of the number zero, of \<^verbatim>\<open>null\<close> and of \<^verbatim>\<open>false\<close>.
\<close>

fun truthy_str :: "string option \<Rightarrow> bool" where
  "truthy_str None = False"
| "truthy_str (Some s) = (s \<noteq> [])"

fun truthy_int :: "int option \<Rightarrow> bool" where
  "truthy_int None = False"
| "truthy_int (Some n) = (n \<noteq> 0)"

fun truthy_json :: "json option \<Rightarrow> bool" where
  "truthy_json None = False"
| "truthy_json (Some JNull) = False"
| "truthy_json (Some (JBool b)) = b"
| "truthy_json (Some (JNum n)) = (n \<noteq> 0)"
| "truthy_json (Some (JStr s)) = (s \<noteq> [])"
| "truthy_json (Some (JArr xs)) = True"
| "truthy_json (Some (JObj kvs)) = True"

section \<open>Prepared statements (\<^verbatim>\<open>database.js\<close>)\<close>

text \<open>
  \<^verbatim>\<open>stmt.get(...)\<close> returns the first row of the result or \<^verbatim>\<open>undefined\<close>:
  \<open>find\<close> over the table. \<^verbatim>\<open>stmt.all(...)\<close> returns every row: \<open>filter\<close>.
\<close>

definition findByEmail :: "user list \<Rightarrow> string \<Rightarrow> user option" where
  "findByEmail us e = find (\<lambda>u. email u = e) us"

definition findByUsername :: "user list \<Rightarrow> string \<Rightarrow> user option" where
  "findByUsername us n = find (\<lambda>u. username u = Some n) us"

definition findById :: "user list \<Rightarrow> int \<Rightarrow> user option" where
  "findById us i = find (\<lambda>u. u_id u = i) us"

text \<open>
  \<^verbatim>\<open>checkFriendship\<close>:
  \<^verbatim>\<open>SELECT * FROM friendships WHERE ((user1_id = ? AND user2_id = ?) OR (user1_id = ? AND user2_id = ?))\<close>
  with its four positional parameters. SQLite answers the disjunction term by term
  through the index of \<^verbatim>\<open>UNIQUE(user1_id, user2_id)\<close>: the row of the first term comes
  first, the row of the second term after it, so \<^verbatim>\<open>.get\<close> returns the row stored as
  \<open>(p1, p2)\<close> when there is one and the row stored as \<open>(p3, p4)\<close> otherwise.
\<close>

definition checkFriendship :: "friendship list \<Rightarrow> int \<Rightarrow> int \<Rightarrow> int \<Rightarrow> int \<Rightarrow> friendship option" where
  "checkFriendship fs p1 p2 p3 p4 =
     (case find (\<lambda>f. user1_id f = p1 \<and> user2_id f = p2) fs of
        Some f \<Rightarrow> Some f
      | None \<Rightarrow> find (\<lambda>f. user1_id f = p3 \<and> user2_id f = p4) fs)"

definition findByUserId :: "card list \<Rightarrow> int \<Rightarrow> card option" where
  "findByUserId cs uid = find (\<lambda>c. card_user_id c = uid) cs"

section \<open>Authorization rule: accepted friendship\<close>

text \<open>
  The handlers inline the test
  \<^verbatim>\<open>friendship = checkFriendship.get(me, other, other, me); if (!friendship || friendship.status !== 'accepted') ...\<close>.
  \<open>isAcceptedFriend\<close> is the negation of that condition.
\<close>

definition isAcceptedFriend :: "friendship list \<Rightarrow> int \<Rightarrow> int \<Rightarrow> bool" where
  "isAcceptedFriend fs me other =
     (case checkFriendship fs me other other me of
        None \<Rightarrow> False
      | Some friendship \<Rightarrow> f_status friendship = Accepted)"


text \<open>A row of the friendship table represents the unordered pair \<open>{a, b}\<close>.\<close>

definition links :: "friendship \<Rightarrow> int \<Rightarrow> int \<Rightarrow> bool" where
  "links f a b = ((user1_id f = a \<and> user2_id f = b) \<or> (user1_id f = b \<and> user2_id f = a))"

text \<open>
  The data model's invariant of the friendship table: no two rows represent the same
  unordered pair.
\<close>

fun pair_unique :: "friendship list \<Rightarrow> bool" where
  "pair_unique [] = True"
| "pair_unique (f # fs) =
     (list_all (\<lambda>g. \<not> links g (user1_id f) (user2_id f)) fs \<and> pair_unique fs)"

section \<open>Card handlers\<close>

record card_view =
  v_size :: int
  v_grid :: json
  v_completed :: json
  v_createdAt :: nat
  v_updatedAt :: nat

definition view_of :: "card \<Rightarrow> card_view" where
  "view_of c = \<lparr>v_size = card_size c, v_grid = grid_data c, v_completed = completed_data c,
                v_createdAt = card_created_at c, v_updatedAt = updated_at c\<rparr>"

text \<open>\<^verbatim>\<open>GET /api/cards/:userId\<close>, for the authenticated user \<open>me\<close>.\<close>

definition getFriendCard :: "db \<Rightarrow> int \<Rightarrow> int \<Rightarrow> error + card_view" where
  "getFriendCard s me friendId =
     (if \<not> isAcceptedFriend (friendships s) me friendId then Inl Forbidden
      else case findByUserId (bingo_cards s) friendId of
             None \<Rightarrow> Inl NotFound
           | Some c \<Rightarrow> Inr (view_of c))"

section \<open>Friendship handlers\<close>

text \<open>
  \<^verbatim>\<open>friendshipQueries.create.run(user1, user2, 'pending')\<close>: the insert fails on
  \<^verbatim>\<open>UNIQUE(user1_id, user2_id)\<close> and on the two foreign keys into \<^verbatim>\<open>users\<close>; the
  handler's \<^verbatim>\<open>catch\<close> turns either failure into status 500.
\<close>

definition create_friendship :: "nat \<Rightarrow> db \<Rightarrow> int \<Rightarrow> int \<Rightarrow> db option" where
  "create_friendship now s a b =
     (if list_ex (\<lambda>f. user1_id f = a \<and> user2_id f = b) (friendships s) then None
      else if findById (users s) a = None \<or> findById (users s) b = None then None
      else let i = next_rowid (seq_friendships s) (map f_id (friendships s))
           in Some (s\<lparr>friendships := friendships s @
                        [\<lparr>f_id = i, user1_id = a, user2_id = b, f_status = Pending,
                          f_created_at = now\<rparr>],
                      seq_friendships := i\<rparr>))"

text \<open>
  \<^verbatim>\<open>POST /api/friends/request\<close> with body fields \<^verbatim>\<open>friendEmail\<close> and \<^verbatim>\<open>friendUsername\<close>.
  The target is looked up by username first (when the query exists), then by email.
\<close>

definition resolve_friend :: "db \<Rightarrow> string option \<Rightarrow> string option \<Rightarrow> user option" where
  "resolve_friend s friendEmail friendUsername =
     (let friend =
            (case friendUsername of
               Some n \<Rightarrow> if n \<noteq> [] \<and> hasUsernameColumn s then findByUsername (users s) n else None
             | None \<Rightarrow> None)
      in case friend of
           Some u \<Rightarrow> Some u
         | None \<Rightarrow> (case friendEmail of
                      Some e \<Rightarrow> if e \<noteq> [] then findByEmail (users s) e else None
                    | None \<Rightarrow> None))"

definition sendFriendRequest ::
  "nat \<Rightarrow> db \<Rightarrow> int \<Rightarrow> string option \<Rightarrow> string option \<Rightarrow> (error + success) \<times> db" where
  "sendFriendRequest now s me friendEmail friendUsername =
     (if \<not> truthy_str friendEmail \<and> \<not> truthy_str friendUsername then (Inl BadRequest, s)
      else case resolve_friend s friendEmail friendUsername of
        None \<Rightarrow> (Inl NotFound, s)
      | Some friend \<Rightarrow>
          if u_id friend = me then (Inl BadRequest, s)
          else (case checkFriendship (friendships s) me (u_id friend) (u_id friend) me of
                  Some existing \<Rightarrow>
                    if f_status existing = Accepted then (Inl Conflict, s) else (Inl Conflict, s)
                | None \<Rightarrow>
                    (case create_friendship now s me (u_id friend) of
                       None \<Rightarrow> (Inl Internal, s)
                     | Some s' \<Rightarrow> (Inr Created201, s'))))"

text \<open>\<^verbatim>\<open>POST /api/friends/accept/:requestId\<close>.\<close>

definition acceptFriendRequest :: "db \<Rightarrow> int \<Rightarrow> int \<Rightarrow> (error + success) \<times> db" where
  "acceptFriendRequest s me requestId =
     (case find (\<lambda>f. f_id f = requestId) (friendships s) of
        None \<Rightarrow> (Inl NotFound, s)
      | Some request \<Rightarrow>
          if user2_id request \<noteq> me then (Inl Forbidden, s)
          else (Inr Ok200,
                s\<lparr>friendships :=
                    map (\<lambda>f. if f_id f = requestId then f\<lparr>f_status := Accepted\<rparr> else f)
                        (friendships s)\<rparr>))"

section \<open>Authentication middleware\<close>

text \<open>
  The payload that \<^verbatim>\<open>jwt.sign({ userId, email }, ...)\<close> embeds in a token, and the two
  ways in which \<^verbatim>\<open>jwt.verify\<close> of the \<^verbatim>\<open>jsonwebtoken\<close> package rejects a token. The
  package is not part of the repository: \<^verbatim>\<open>jwt.verify(token, JWT_SECRET, callback)\<close> is
  the parameter \<open>verify\<close> of the middleware.
\<close>

record token_payload =
  userId :: int
  tok_email :: string

datatype jwt_failure = JsonWebTokenError | TokenExpiredError

text \<open>\<^verbatim>\<open>String.prototype.split(' ')\<close>: the fields between single spaces.\<close>

fun split_space :: "string \<Rightarrow> string list" where
  "split_space [] = [[]]"
| "split_space (c # cs) =
     (if c = CHR '' '' then [] # split_space cs
      else (case split_space cs of
              w # ws \<Rightarrow> (c # w) # ws
            | [] \<Rightarrow> [[c]]))"

text \<open>
  \<^verbatim>\<open>const token = authHeader && authHeader.split(' ')[1]\<close>. An absent header and an
  index past the end are \<^verbatim>\<open>undefined\<close> (\<open>None\<close>); an empty header is itself the value.
\<close>

definition bearer_token :: "string option \<Rightarrow> string option" where
  "bearer_token authHeader =
     (case authHeader of
        None \<Rightarrow> None
      | Some h \<Rightarrow> if h = [] then Some []
                  else (case split_space h of
                          _ # t # _ \<Rightarrow> Some t
                        | _ \<Rightarrow> None))"

definition authenticateToken ::
  "(string \<Rightarrow> jwt_failure + token_payload) \<Rightarrow> string option \<Rightarrow> error + token_payload" where
  "authenticateToken verify authHeader =
     (case bearer_token authHeader of
        None \<Rightarrow> Inl Unauthorized
      | Some token \<Rightarrow>
          if token = [] then Inl Unauthorized
          else (case verify token of
                  Inl err \<Rightarrow> Inl Forbidden
                | Inr user \<Rightarrow> Inr user))"

section \<open>Card upsert\<close>

text \<open>
  \<^verbatim>\<open>cardQueries.update\<close>:
  \<^verbatim>\<open>UPDATE bingo_cards SET grid_data = ?, completed_data = ?, updated_at = CURRENT_TIMESTAMP WHERE user_id = ?\<close>.
\<close>

definition update_card :: "nat \<Rightarrow> card list \<Rightarrow> json \<Rightarrow> json \<Rightarrow> int \<Rightarrow> card list" where
  "update_card now cs gridData completedData uid =
     map (\<lambda>c. if card_user_id c = uid
               then c\<lparr>grid_data := gridData, completed_data := completedData, updated_at := now\<rparr>
               else c) cs"

text \<open>
  \<^verbatim>\<open>cardQueries.create\<close>:
  \<^verbatim>\<open>INSERT INTO bingo_cards (user_id, size, grid_data, completed_data) VALUES (?, ?, ?, ?)\<close>;
  it fails on the foreign key into \<^verbatim>\<open>users\<close>.
\<close>

definition create_card :: "nat \<Rightarrow> db \<Rightarrow> int \<Rightarrow> int \<Rightarrow> json \<Rightarrow> json \<Rightarrow> db option" where
  "create_card now s uid n gridData completedData =
     (if findById (users s) uid = None then None
      else let i = next_rowid (seq_bingo_cards s) (map card_id (bingo_cards s))
           in Some (s\<lparr>bingo_cards := bingo_cards s @
                        [\<lparr>card_id = i, card_user_id = uid, card_size = n, grid_data = gridData,
                          completed_data = completedData, card_created_at = now,
                          updated_at = now\<rparr>],
                      seq_bingo_cards := i\<rparr>))"

text \<open>
  \<^verbatim>\<open>POST /api/cards\<close> with body fields \<^verbatim>\<open>size\<close> (a JSON number), \<^verbatim>\<open>grid\<close> and
  \<^verbatim>\<open>completed\<close>.
\<close>

definition saveCard ::
  "nat \<Rightarrow> db \<Rightarrow> int \<Rightarrow> int option \<Rightarrow> json option \<Rightarrow> json option \<Rightarrow> (error + success) \<times> db" where
  "saveCard now s me sz grid completed =
     (if \<not> truthy_int sz \<or> \<not> truthy_json grid \<or> \<not> truthy_json completed
      then (Inl BadRequest, s)
      else case (sz, grid, completed) of
        (Some n, Some gridData, Some completedData) \<Rightarrow>
          (case findByUserId (bingo_cards s) me of
             Some existingCard \<Rightarrow>
               (Inr Ok200, s\<lparr>bingo_cards := update_card now (bingo_cards s) gridData completedData me\<rparr>)
           | None \<Rightarrow>
               (case create_card now s me n gridData completedData of
                  None \<Rightarrow> (Inl Internal, s)
                | Some s' \<Rightarrow> (Inr Ok200, s')))
      | _ \<Rightarrow> (Inl BadRequest, s))"

section \<open>Comment handlers\<close>

text \<open>
  The comment queries join each comment with its author's row
  (\<^verbatim>\<open>JOIN users u ON c.author_id = u.id\<close>, on the primary key of \<^verbatim>\<open>users\<close>) and return
  \<^verbatim>\<open>c.*, u.name as author_name\<close>: a pair of the comment and the name. A comment whose
  author row is missing is not returned. The comments are scanned in rowid order and
  sorted by \<^verbatim>\<open>ORDER BY c.created_at DESC\<close>: latest first, comments of one timestamp in
  rowid order.
\<close>

definition join_author :: "user list \<Rightarrow> comment \<Rightarrow> (comment \<times> string) list" where
  "join_author us c =
     (case findById us (author_id c) of
        None \<Rightarrow> []
      | Some u \<Rightarrow> [(c, u_name u)])"

definition getByCard :: "db \<Rightarrow> int \<Rightarrow> (comment \<times> string) list" where
  "getByCard s owner =
     sort_key (\<lambda>r. - int (c_created_at (fst r)))
       (concat (map (join_author (users s))
                    (filter (\<lambda>c. card_owner_id c = owner) (comments s))))"

definition getByTask :: "db \<Rightarrow> int \<Rightarrow> int \<Rightarrow> int \<Rightarrow> (comment \<times> string) list" where
  "getByTask s owner r cl =
     sort_key (\<lambda>r. - int (c_created_at (fst r)))
       (concat (map (join_author (users s))
                    (filter (\<lambda>c. card_owner_id c = owner \<and> c_row c = r \<and> c_col c = cl)
                            (comments s))))"

text \<open>
  The post-filter both listing handlers apply:
  \<^verbatim>\<open>if (cardOwnerId === req.user.userId) return true; return !comment.is_private || comment.author_id === req.user.userId\<close>.
\<close>

definition visible_to :: "int \<Rightarrow> int \<Rightarrow> comment \<times> string \<Rightarrow> bool" where
  "visible_to me cardOwnerId r =
     (if cardOwnerId = me then True
      else \<not> is_private (fst r) \<or> author_id (fst r) = me)"

text \<open>\<^verbatim>\<open>GET /api/comments/:cardOwnerId\<close>.\<close>

definition listComments :: "db \<Rightarrow> int \<Rightarrow> int \<Rightarrow> error + (comment \<times> string) list" where
  "listComments s me cardOwnerId =
     (if cardOwnerId \<noteq> me \<and> \<not> isAcceptedFriend (friendships s) me cardOwnerId
      then Inl Forbidden
      else Inr (filter (visible_to me cardOwnerId) (getByCard s cardOwnerId)))"

text \<open>\<^verbatim>\<open>GET /api/comments/:cardOwnerId/:row/:col\<close>.\<close>

definition listTaskComments ::
  "db \<Rightarrow> int \<Rightarrow> int \<Rightarrow> int \<Rightarrow> int \<Rightarrow> error + (comment \<times> string) list" where
  "listTaskComments s me cardOwnerId r cl =
     (if cardOwnerId \<noteq> me \<and> \<not> isAcceptedFriend (friendships s) me cardOwnerId
      then Inl Forbidden
      else Inr (filter (visible_to me cardOwnerId) (getByTask s cardOwnerId r cl)))"

section \<open>Reaction handlers\<close>

text \<open>
  \<^verbatim>\<open>reactionQueries.create.run(commentId, userId, emoji)\<close>. The insert is rejected by
  \<^verbatim>\<open>UNIQUE(comment_id, user_id, emoji)\<close> as soon as the row is written, and by the
  foreign keys into \<^verbatim>\<open>comments\<close> and \<^verbatim>\<open>users\<close> when the statement ends.
\<close>

datatype sql_error = UniqueConstraint | ForeignKeyConstraint

definition create_reaction :: "nat \<Rightarrow> db \<Rightarrow> int \<Rightarrow> int \<Rightarrow> string \<Rightarrow> sql_error + db" where
  "create_reaction now s commentId uid e =
     (if list_ex (\<lambda>r. r_comment_id r = commentId \<and> r_user_id r = uid \<and> emoji r = e) (reactions s)
      then Inl UniqueConstraint
      else if \<not> list_ex (\<lambda>c. c_id c = commentId) (comments s) \<or> findById (users s) uid = None
      then Inl ForeignKeyConstraint
      else let i = next_rowid (seq_reactions s) (map r_id (reactions s))
           in Inr (s\<lparr>reactions := reactions s @
                       [\<lparr>r_id = i, r_comment_id = commentId, r_user_id = uid, emoji = e,
                         r_created_at = now\<rparr>],
                     seq_reactions := i\<rparr>))"

text \<open>
  \<^verbatim>\<open>POST /api/reactions\<close> with body fields \<^verbatim>\<open>commentId\<close> and \<^verbatim>\<open>emoji\<close>. The inner
  \<^verbatim>\<open>catch\<close> answers 409 when the message of the error mentions the unique constraint and
  throws every other error on to the outer \<^verbatim>\<open>catch\<close>, which answers 500.
\<close>

definition addReaction ::
  "nat \<Rightarrow> db \<Rightarrow> int \<Rightarrow> int option \<Rightarrow> string option \<Rightarrow> (error + success) \<times> db" where
  "addReaction now s me commentId emo =
     (if \<not> truthy_int commentId \<or> \<not> truthy_str emo then (Inl BadRequest, s)
      else case (commentId, emo) of
        (Some cid, Some e) \<Rightarrow>
          (case create_reaction now s cid me e of
             Inr s' \<Rightarrow> (Inr Created201, s')
           | Inl UniqueConstraint \<Rightarrow> (Inl Conflict, s)
           | Inl ForeignKeyConstraint \<Rightarrow> (Inl Internal, s))
      | _ \<Rightarrow> (Inl BadRequest, s))"

text \<open>
  \<^verbatim>\<open>reactionQueries.getByComment\<close>: the reactions of one comment joined with the reacting
  user's name, oldest first. The reactions of the comment are found through the index
  of \<^verbatim>\<open>UNIQUE(comment_id, user_id, emoji)\<close>, so reactions of one timestamp come in the
  order of user id and emoji.
\<close>

definition join_reactor :: "user list \<Rightarrow> reaction \<Rightarrow> (reaction \<times> string) list" where
  "join_reactor us r =
     (case findById us (r_user_id r) of
        None \<Rightarrow> []
      | Some u \<Rightarrow> [(r, u_name u)])"

definition getByComment :: "db \<Rightarrow> int \<Rightarrow> (reaction \<times> string) list" where
  "getByComment s commentId =
     sort_key (\<lambda>x. r_created_at (fst x))
       (concat (map (join_reactor (users s))
                    (sort_key (\<lambda>r. (r_user_id r, emoji r))
                       (filter (\<lambda>r. r_comment_id r = commentId) (reactions s)))))"

text \<open>
  The handler collects the names in \<^verbatim>\<open>const grouped = {}\<close>, an ordinary object: reading
  \<^verbatim>\<open>grouped[key]\<close> for a key the object does not own yields the property inherited from
  \<^verbatim>\<open>Object.prototype\<close> when there is one. These are the inherited names; each of them
  holds a function or an object, so \<^verbatim>\<open>!grouped[key]\<close> is false for them.
\<close>

definition object_prototype_keys :: "string list" where
  "object_prototype_keys =
     [''constructor'', ''__defineGetter__'', ''__defineSetter__'', ''hasOwnProperty'',
      ''__lookupGetter__'', ''__lookupSetter__'', ''isPrototypeOf'', ''propertyIsEnumerable'',
      ''toString'', ''valueOf'', ''__proto__'', ''toLocaleString'']"

text \<open>
  One round of the \<^verbatim>\<open>forEach\<close>:
  \<^verbatim>\<open>if (!grouped[reaction.emoji]) grouped[reaction.emoji] = []; grouped[reaction.emoji].push(reaction.user_name)\<close>.
  \<open>grouped\<close> holds the object's own properties (each an array, hence truthy). For an
  inherited name the array is never created and \<^verbatim>\<open>.push\<close> is not a function of the
  inherited value: the call throws a \<^verbatim>\<open>TypeError\<close> (\<open>None\<close>).
\<close>

definition group_step ::
  "(string \<rightharpoonup> string list) \<Rightarrow> reaction \<times> string \<Rightarrow> (string \<rightharpoonup> string list) option" where
  "group_step grouped x =
     (case grouped (emoji (fst x)) of
        Some names \<Rightarrow> Some (grouped(emoji (fst x) \<mapsto> names @ [snd x]))
      | None \<Rightarrow>
          if emoji (fst x) \<in> set object_prototype_keys then None
          else Some (grouped(emoji (fst x) \<mapsto> [snd x])))"

fun group_by_emoji ::
  "(string \<rightharpoonup> string list) \<Rightarrow> (reaction \<times> string) list \<Rightarrow> (string \<rightharpoonup> string list) option" where
  "group_by_emoji grouped [] = Some grouped"
| "group_by_emoji grouped (x # xs) =
     (case group_step grouped x of
        None \<Rightarrow> None
      | Some grouped' \<Rightarrow> group_by_emoji grouped' xs)"

text \<open>
  \<^verbatim>\<open>GET /api/reactions/:commentId\<close> for the authenticated user \<open>me\<close>; the \<^verbatim>\<open>catch\<close> of
  the handler answers 500.
\<close>

definition listReactions :: "db \<Rightarrow> int \<Rightarrow> int \<Rightarrow> error + (string \<rightharpoonup> string list)" where
  "listReactions s me commentId =
     (case group_by_emoji Map.empty (getByComment s commentId) of
        None \<Rightarrow> Inl Internal
      | Some grouped \<Rightarrow> Inr grouped)"

section \<open>Group handlers\<close>

definition getMember :: "group_member list \<Rightarrow> int \<Rightarrow> int \<Rightarrow> group_member option" where
  "getMember ms groupId uid = find (\<lambda>m. gm_group_id m = groupId \<and> gm_user_id m = uid) ms"

text \<open>
  \<^verbatim>\<open>getGroupMembers\<close>: the accepted memberships of a group joined with the member's user
  row (\<^verbatim>\<open>gm.*, u.name as user_name, u.email as user_email\<close>), in the order of joining.
  The memberships of the group are found through the index of
  \<^verbatim>\<open>UNIQUE(group_id, user_id)\<close>, so members of one timestamp come in the order of user id.
\<close>

definition join_member :: "user list \<Rightarrow> group_member \<Rightarrow> (group_member \<times> string \<times> string) list" where
  "join_member us m =
     (case findById us (gm_user_id m) of
        None \<Rightarrow> []
      | Some u \<Rightarrow> [(m, u_name u, email u)])"

definition getGroupMembers :: "db \<Rightarrow> int \<Rightarrow> (group_member \<times> string \<times> string) list" where
  "getGroupMembers s groupId =
     sort_key (\<lambda>x. joined_at (fst x))
       (concat (map (join_member (users s))
                    (sort_key gm_user_id
                       (filter (\<lambda>m. gm_group_id m = groupId \<and> gm_status m = Accepted)
                               (group_members s)))))"

definition removeMember :: "group_member list \<Rightarrow> int \<Rightarrow> int \<Rightarrow> group_member list" where
  "removeMember ms groupId uid = filter (\<lambda>m. \<not> (gm_group_id m = groupId \<and> gm_user_id m = uid)) ms"

text \<open>
  \<^verbatim>\<open>groupQueries.delete\<close>: \<^verbatim>\<open>DELETE FROM groups WHERE id = ?\<close>, with the cascades the
  schema declares: memberships and comments of the group, and the reactions on those
  comments.
\<close>

definition delete_group :: "db \<Rightarrow> int \<Rightarrow> db" where
  "delete_group s groupId =
     s\<lparr>groups := filter (\<lambda>g. g_id g \<noteq> groupId) (groups s),
       group_members := filter (\<lambda>m. gm_group_id m \<noteq> groupId) (group_members s),
       group_comments := filter (\<lambda>c. gc_group_id c \<noteq> groupId) (group_comments s),
       group_comment_reactions :=
         filter (\<lambda>r. group_comment_id r \<notin>
                        set (map gc_id (filter (\<lambda>c. gc_group_id c = groupId) (group_comments s))))
                (group_comment_reactions s)\<rparr>"

text \<open>
  \<^verbatim>\<open>DELETE /api/groups/:groupId/leave\<close>. (The handler also reads the group row into a
  variable it never uses.)
\<close>

definition leaveGroup :: "db \<Rightarrow> int \<Rightarrow> int \<Rightarrow> (error + success) \<times> db" where
  "leaveGroup s me groupId =
     (case getMember (group_members s) groupId me of
        None \<Rightarrow> (Inl NotFound, s)
      | Some membership \<Rightarrow>
          let members = getGroupMembers s groupId;
              adminCount = length (filter (\<lambda>m. gm_role (fst m) = Admin) members)
          in if gm_role membership = Admin \<and> adminCount = 1 \<and> length members > 1
             then (Inl BadRequest, s)
             else let s1 = s\<lparr>group_members := removeMember (group_members s) groupId me\<rparr>;
                      remainingMembers = getGroupMembers s1 groupId
                  in if length remainingMembers = 0
                     then (Inr Ok200, delete_group s1 groupId)
                     else (Inr Ok200, s1))"

section \<open>Admin reporting\<close>

text \<open>
  \<^verbatim>\<open>authenticateAdmin\<close>: the token check of \<^verbatim>\<open>authenticateToken\<close>, then
  \<^verbatim>\<open>adminQueries.isAdmin.get(user.userId)\<close> and the test
  \<^verbatim>\<open>!adminCheck || !adminCheck.is_admin\<close>.
\<close>

definition authenticateAdmin ::
  "(string \<Rightarrow> jwt_failure + token_payload) \<Rightarrow> db \<Rightarrow> string option \<Rightarrow> error + token_payload" where
  "authenticateAdmin verify s authHeader =
     (case bearer_token authHeader of
        None \<Rightarrow> Inl Unauthorized
      | Some token \<Rightarrow>
          if token = [] then Inl Unauthorized
          else (case verify token of
                  Inl err \<Rightarrow> Inl Forbidden
                | Inr user \<Rightarrow>
                    (case findById (users s) (userId user) of
                       None \<Rightarrow> Inl Forbidden
                     | Some adminCheck \<Rightarrow>
                         if \<not> truthy_int (is_admin adminCheck) then Inl Forbidden
                         else Inr user)))"

text \<open>The counting statements of \<^verbatim>\<open>adminQueries\<close>.\<close>

definition getTotalUsers :: "db \<Rightarrow> nat" where
  "getTotalUsers s = length (filter (\<lambda>u. is_admin u = Some 0) (users s))"

definition getTotalCards :: "db \<Rightarrow> nat" where
  "getTotalCards s = length (bingo_cards s)"

definition getTotalGroups :: "db \<Rightarrow> nat" where
  "getTotalGroups s = length (groups s)"

definition getTotalComments :: "db \<Rightarrow> nat" where
  "getTotalComments s = length (comments s)"

definition getTotalGroupComments :: "db \<Rightarrow> nat" where
  "getTotalGroupComments s = length (group_comments s)"

record recent_user =
  ru_id :: int
  ru_name :: string
  ru_username :: "string option"
  ru_email :: string
  ru_created_at :: nat

text \<open>
  \<^verbatim>\<open>getRecentUsers\<close>:
  \<^verbatim>\<open>SELECT id, name, username, email, created_at FROM users WHERE is_admin = 0 ORDER BY created_at DESC LIMIT ?\<close>:
  latest first, users of one timestamp in rowid order.
\<close>

definition getRecentUsers :: "db \<Rightarrow> nat \<Rightarrow> recent_user list" where
  "getRecentUsers s limit =
     take limit
       (map (\<lambda>u. \<lparr>ru_id = u_id u, ru_name = u_name u, ru_username = username u,
                   ru_email = email u, ru_created_at = u_created_at u\<rparr>)
            (sort_key (\<lambda>u. - int (u_created_at u))
               (filter (\<lambda>u. is_admin u = Some 0) (users s))))"

record analytics =
  totalUsers :: nat
  totalCards :: nat
  totalGroups :: nat
  totalComments :: nat
  recentUsers :: "recent_user list"

text \<open>\<^verbatim>\<open>GET /api/admin/analytics\<close>, behind \<^verbatim>\<open>authenticateAdmin\<close>.\<close>

definition adminAnalytics ::
  "(string \<Rightarrow> jwt_failure + token_payload) \<Rightarrow> db \<Rightarrow> string option \<Rightarrow> error + analytics" where
  "adminAnalytics verify s authHeader =
     (case authenticateAdmin verify s authHeader of
        Inl e \<Rightarrow> Inl e
      | Inr user \<Rightarrow>
          Inr \<lparr>totalUsers = getTotalUsers s,
               totalCards = getTotalCards s,
               totalGroups = getTotalGroups s,
               totalComments = getTotalComments s + getTotalGroupComments s,
               recentUsers = getRecentUsers s 10\<rparr>)"

section \<open>Grouping by emoji, as a specification\<close>

text \<open>
  What the reaction listing is meant to compute from the rows of the query: for each
  emoji, the names of the users who reacted with it, in the order of the rows.
  \<open>extend grouped rows\<close> adds these names to the groups collected so far.
\<close>

definition names_for :: "string \<Rightarrow> (reaction \<times> string) list \<Rightarrow> string list" where
  "names_for e rows = map snd (filter (\<lambda>x. emoji (fst x) = e) rows)"

definition extend ::
  "(string \<rightharpoonup> string list) \<Rightarrow> (reaction \<times> string) list \<Rightarrow> (string \<rightharpoonup> string list)" where
  "extend grouped rows =
     (\<lambda>e. case grouped e of
             Some names \<Rightarrow> Some (names @ names_for e rows)
           | None \<Rightarrow> if names_for e rows = [] then None else Some (names_for e rows))"

section \<open>Schema constraints as predicates\<close>

text \<open>\<^verbatim>\<open>UNIQUE(group_id, user_id)\<close> of \<^verbatim>\<open>group_members\<close>.\<close>

definition unique_members :: "group_member list \<Rightarrow> bool" where
  "unique_members ms = distinct (map (\<lambda>m. (gm_group_id m, gm_user_id m)) ms)"

text \<open>The foreign key \<^verbatim>\<open>group_members.user_id REFERENCES users(id)\<close>.\<close>

definition fk_members :: "db \<Rightarrow> bool" where
  "fk_members s = list_all (\<lambda>m. findById (users s) (gm_user_id m) \<noteq> None) (group_members s)"

text \<open>The foreign keys of \<^verbatim>\<open>reactions\<close> into \<^verbatim>\<open>comments\<close> and \<^verbatim>\<open>users\<close>.\<close>

definition fk_reactions :: "db \<Rightarrow> bool" where
  "fk_reactions s =
     list_all (\<lambda>r. list_ex (\<lambda>c. c_id c = r_comment_id r) (comments s)
                   \<and> findById (users s) (r_user_id r) \<noteq> None) (reactions s)"

section \<open>A sample database\<close>

text \<open>
  Four users, of whom Dee is an administrator; Ann and Bo are accepted friends, Cy and
  Bo are accepted friends, Ann and Cy are not friends. Ann holds a card and has left a
  private comment on Bo's card, with one reaction of her own on it. Ann administers a
  group that Bo has joined.
\<close>

definition sample_users :: "user list" where
  "sample_users =
     [\<lparr>u_id = 1, u_name = ''Ann'', username = None, email = ''ann@x.com'', password = ''h1'',
       is_admin = Some 0, u_created_at = 1\<rparr>,
      \<lparr>u_id = 2, u_name = ''Bo'', username = Some ''bo'', email = ''bo@x.com'', password = ''h2'',
       is_admin = Some 0, u_created_at = 2\<rparr>,
      \<lparr>u_id = 3, u_name = ''Cy'', username = None, email = ''cy@x.com'', password = ''h3'',
       is_admin = Some 0, u_created_at = 3\<rparr>,
      \<lparr>u_id = 4, u_name = ''Dee'', username = None, email = ''dee@x.com'', password = ''h4'',
       is_admin = Some 1, u_created_at = 4\<rparr>]"

definition sample_comment :: comment where
  "sample_comment =
     \<lparr>c_id = 1, author_id = 1, card_owner_id = 2, c_row = 0, c_col = 0, c_text = ''well done'',
      is_private = True, c_created_at = 12\<rparr>"

definition sample_db :: db where
  "sample_db =
     \<lparr>users = sample_users,
      bingo_cards =
        [\<lparr>card_id = 1, card_user_id = 1, card_size = 3, grid_data = JArr [],
          completed_data = JArr [], card_created_at = 5, updated_at = 5\<rparr>],
      friendships =
        [\<lparr>f_id = 1, user1_id = 1, user2_id = 2, f_status = Accepted, f_created_at = 6\<rparr>,
         \<lparr>f_id = 2, user1_id = 3, user2_id = 2, f_status = Accepted, f_created_at = 7\<rparr>],
      comments = [sample_comment],
      reactions =
        [\<lparr>r_id = 1, r_comment_id = 1, r_user_id = 1, emoji = ''party'', r_created_at = 13\<rparr>],
      groups = [\<lparr>g_id = 1, g_name = ''club'', creator_id = 1, g_created_at = 8\<rparr>],
      group_members =
        [\<lparr>gm_id = 1, gm_group_id = 1, gm_user_id = 1, gm_role = Admin, gm_status = Accepted,
          joined_at = 8\<rparr>,
         \<lparr>gm_id = 2, gm_group_id = 1, gm_user_id = 2, gm_role = Member, gm_status = Accepted,
          joined_at = 9\<rparr>],
      group_comments = [],
      group_comment_reactions = [],
      seq_bingo_cards = 1,
      seq_friendships = 2,
      seq_reactions = 1,
      hasUsernameColumn = True\<rparr>"

text \<open>
  A stand-in for \<^verbatim>\<open>jwt.verify\<close> on three tokens: one signed for Dee, one signed for Ann
  and one that has expired; anything else is malformed.
\<close>

definition sample_verify :: "string \<Rightarrow> jwt_failure + token_payload" where
  "sample_verify t =
     (if t = ''tok-dee'' then Inr \<lparr>userId = 4, tok_email = ''dee@x.com''\<rparr>
      else if t = ''tok-ann'' then Inr \<lparr>userId = 1, tok_email = ''ann@x.com''\<rparr>
      else if t = ''tok-old'' then Inl TokenExpiredError
      else Inl JsonWebTokenError)"

section \<open>Properties of the friendship lookup\<close>


lemma find_Some_mem: "find P xs = Some x \<Longrightarrow> x \<in> set xs \<and> P x"
  by (induction xs) (auto split: if_splits)

lemma checkFriendship_Some_links:
  "checkFriendship fs a b b a = Some f \<Longrightarrow> f \<in> set fs \<and> links f a b"
  by (auto simp: checkFriendship_def links_def split: option.splits dest: find_Some_mem)

lemma checkFriendship_None_iff:
  "checkFriendship fs a b b a = None \<longleftrightarrow> (\<forall>f \<in> set fs. \<not> links f a b)"
proof
  assume "checkFriendship fs a b b a = None"
  then have "find (\<lambda>f. user1_id f = a \<and> user2_id f = b) fs = None"
    and "find (\<lambda>f. user1_id f = b \<and> user2_id f = a) fs = None"
    by (simp_all add: checkFriendship_def split: option.splits)
  then show "\<forall>f \<in> set fs. \<not> links f a b"
    by (auto simp: find_None_iff links_def)
next
  assume "\<forall>f \<in> set fs. \<not> links f a b"
  then have "find (\<lambda>f. user1_id f = a \<and> user2_id f = b) fs = None"
    and "find (\<lambda>f. user1_id f = b \<and> user2_id f = a) fs = None"
    by (auto simp: find_None_iff links_def)
  then show "checkFriendship fs a b b a = None"
    by (simp add: checkFriendship_def)
qed

lemma links_same_pair:
  "links f a b \<Longrightarrow> links g a b \<Longrightarrow> links g (user1_id f) (user2_id f)"
  by (auto simp: links_def)

lemma pair_unique_find:
  "pair_unique fs \<Longrightarrow> f \<in> set fs \<Longrightarrow> links f a b \<Longrightarrow> find (\<lambda>f. links f a b) fs = Some f"
proof (induction fs)
  case Nil
  then show ?case by simp
next
  case (Cons g gs)
  show ?case
  proof (cases "links g a b")
    case True
    have "f = g"
    proof (rule ccontr)
      assume "f \<noteq> g"
      with Cons.prems have "f \<in> set gs" by simp
      moreover from Cons.prems have "list_all (\<lambda>h. \<not> links h (user1_id g) (user2_id g)) gs"
        by simp
      ultimately have "\<not> links f (user1_id g) (user2_id g)"
        by (simp add: list_all_iff)
      with links_same_pair [OF True Cons.prems(3)] show False by simp
    qed
    with True show ?thesis by simp
  next
    case False
    with Cons.prems have "f \<in> set gs" "pair_unique gs" by auto
    with Cons.IH Cons.prems(3) False show ?thesis by simp
  qed
qed

lemma isAcceptedFriend_imp_row:
  "isAcceptedFriend fs a b \<Longrightarrow> \<exists>f \<in> set fs. links f a b \<and> f_status f = Accepted"
  by (auto simp: isAcceptedFriend_def split: option.splits dest: checkFriendship_Some_links)

lemma pair_unique_same_row:
  assumes "pair_unique fs" and "f \<in> set fs" and "g \<in> set fs"
    and "links f a b" and "links g a b"
  shows "f = g"
proof -
  from assms(1,2,4) have "find (\<lambda>f. links f a b) fs = Some f"
    by (rule pair_unique_find)
  moreover from assms(1,3,5) have "find (\<lambda>f. links f a b) fs = Some g"
    by (rule pair_unique_find)
  ultimately show ?thesis by simp
qed

lemma pair_unique_checkFriendship:
  assumes "pair_unique fs" and "f \<in> set fs" and "links f a b"
  shows "checkFriendship fs a b b a = Some f"
proof (cases "checkFriendship fs a b b a")
  case None
  with assms(2,3) show ?thesis
    by (simp add: checkFriendship_None_iff)
next
  case (Some g)
  then have "g \<in> set fs" "links g a b"
    by (simp_all add: checkFriendship_Some_links)
  with assms have "f = g"
    by (intro pair_unique_same_row [of fs f g a b])
  with Some show ?thesis by simp
qed

lemma row_imp_isAcceptedFriend:
  "pair_unique fs \<Longrightarrow> f \<in> set fs \<Longrightarrow> links f a b \<Longrightarrow> f_status f = Accepted
   \<Longrightarrow> isAcceptedFriend fs a b"
  by (simp add: isAcceptedFriend_def pair_unique_checkFriendship)

section \<open>Friendships: symmetry, card access, repeated requests\<close>








text \<open>
  The lookup reads the row of its first term first: on a table that stores a pair in
  both column orders the two argument orders read different rows. The schema's
  \<^verbatim>\<open>UNIQUE(user1_id, user2_id)\<close> admits such a table; the handlers never produce one
  (\<open>sendFriendRequest_pair_unique\<close>, \<open>acceptFriendRequest_pair_unique\<close> below).
\<close>

lemma checkFriendship_term_order:
  "map_option f_id
     (checkFriendship
        [\<lparr>f_id = 1, user1_id = 3, user2_id = 1, f_status = Pending, f_created_at = 1\<rparr>,
         \<lparr>f_id = 2, user1_id = 1, user2_id = 3, f_status = Accepted, f_created_at = 2\<rparr>]
        1 3 3 1) = Some 2
   \<and> map_option f_id
     (checkFriendship
        [\<lparr>f_id = 1, user1_id = 3, user2_id = 1, f_status = Pending, f_created_at = 1\<rparr>,
         \<lparr>f_id = 2, user1_id = 1, user2_id = 3, f_status = Accepted, f_created_at = 2\<rparr>]
        3 1 1 3) = Some 1"
  by (simp add: checkFriendship_def)



text \<open>
  Claim C3. Fetching the card of \<open>owner\<close> as \<open>requester\<close>: when no accepted row links the
  two, the answer is Forbidden whatever the card table holds, so the refusal is decided
  before any card is looked up; when the pair's row is accepted and \<open>owner\<close> has no card,
  the answer is NotFound.
\<close>

theorem getFriendCard_forbidden_then_notfound:
  "(\<not> (\<exists>f \<in> set (friendships s). links f requester owner \<and> f_status f = Accepted)
      \<longrightarrow> (\<forall>cs. getFriendCard (s\<lparr>bingo_cards := cs\<rparr>) requester owner = Inl Forbidden))
   \<and> (pair_unique (friendships s)
        \<and> (\<exists>f \<in> set (friendships s). links f requester owner \<and> f_status f = Accepted)
        \<and> (\<forall>c \<in> set (bingo_cards s). card_user_id c \<noteq> owner)
      \<longrightarrow> getFriendCard s requester owner = Inl NotFound)"
proof (intro conjI impI allI)
  fix cs
  assume "\<not> (\<exists>f \<in> set (friendships s). links f requester owner \<and> f_status f = Accepted)"
  then have "\<not> isAcceptedFriend (friendships s) requester owner"
    using isAcceptedFriend_imp_row by blast
  then show "getFriendCard (s\<lparr>bingo_cards := cs\<rparr>) requester owner = Inl Forbidden"
    by (simp add: getFriendCard_def)
next
  assume h: "pair_unique (friendships s)
        \<and> (\<exists>f \<in> set (friendships s). links f requester owner \<and> f_status f = Accepted)
        \<and> (\<forall>c \<in> set (bingo_cards s). card_user_id c \<noteq> owner)"
  then have "isAcceptedFriend (friendships s) requester owner"
    by (blast intro: row_imp_isAcceptedFriend)
  moreover from h have "findByUserId (bingo_cards s) owner = None"
    by (simp add: findByUserId_def find_None_iff)
  ultimately show "getFriendCard s requester owner = Inl NotFound"
    by (simp add: getFriendCard_def)
qed

theorem getFriendCard_forbidden_then_notfound_witness:
  "\<not> (\<exists>f \<in> set (friendships sample_db). links f 1 3 \<and> f_status f = Accepted)
   \<and> getFriendCard sample_db 1 3 = Inl Forbidden
   \<and> getFriendCard (sample_db\<lparr>bingo_cards := []\<rparr>) 1 3 = Inl Forbidden
   \<and> pair_unique (friendships sample_db)
   \<and> (\<exists>f \<in> set (friendships sample_db). links f 1 2 \<and> f_status f = Accepted)
   \<and> \<not> (\<exists>c \<in> set (bingo_cards sample_db). card_user_id c = 2)
   \<and> getFriendCard sample_db 1 2 = Inl NotFound"
proof -
  have n: "\<not> (\<exists>f \<in> set (friendships sample_db). links f 1 3 \<and> f_status f = Accepted)"
    by (simp add: sample_db_def links_def)
  have u: "pair_unique (friendships sample_db)"
    by (simp add: sample_db_def links_def)
  have ex: "\<exists>f \<in> set (friendships sample_db). links f 1 2 \<and> f_status f = Accepted"
    by (simp add: sample_db_def links_def)
  have nc: "\<forall>c \<in> set (bingo_cards sample_db). card_user_id c \<noteq> 2"
    by (simp add: sample_db_def)
  have same: "sample_db\<lparr>bingo_cards := bingo_cards sample_db\<rparr> = sample_db"
    by simp
  from getFriendCard_forbidden_then_notfound [of sample_db 1 3] n
  have f: "\<forall>cs. getFriendCard (sample_db\<lparr>bingo_cards := cs\<rparr>) 1 3 = Inl Forbidden"
    by blast
  from f have f1: "getFriendCard (sample_db\<lparr>bingo_cards := bingo_cards sample_db\<rparr>) 1 3 = Inl Forbidden"
    by blast
  from f have f2: "getFriendCard (sample_db\<lparr>bingo_cards := []\<rparr>) 1 3 = Inl Forbidden"
    by blast
  from getFriendCard_forbidden_then_notfound [of sample_db 1 2] u ex nc
  have g: "getFriendCard sample_db 1 2 = Inl NotFound"
    by blast
  from n u ex nc f1 f2 g same show ?thesis by simp
qed

lemma resolve_friend_truthy:
  "resolve_friend s friendEmail friendUsername = Some u
   \<Longrightarrow> truthy_str friendEmail \<or> truthy_str friendUsername"
  by (cases friendEmail; cases friendUsername)
     (auto simp: resolve_friend_def Let_def split: if_splits option.splits)

text \<open>
  Claim C6. When a friendship row already links \<open>a\<close> and \<open>b\<close>, in either column order and
  with either status, a request sent by \<open>a\<close> that resolves to \<open>b\<close> is answered with
  Conflict and the database is returned as it was. (The same statement with \<open>a\<close> and \<open>b\<close>
  exchanged covers the request in the other direction, \<open>links\<close> being symmetric.)
\<close>

theorem sendFriendRequest_conflict:
  assumes "resolve_friend s friendEmail friendUsername = Some friend"
    and "u_id friend = b" and "a \<noteq> b"
    and "f \<in> set (friendships s)" and "links f a b"
  shows "sendFriendRequest now s a friendEmail friendUsername = (Inl Conflict, s)"
proof -
  from assms(1) have t: "truthy_str friendEmail \<or> truthy_str friendUsername"
    by (rule resolve_friend_truthy)
  from assms(4,5) have "checkFriendship (friendships s) a b b a \<noteq> None"
    by (auto simp: checkFriendship_None_iff)
  then obtain existing where "checkFriendship (friendships s) a b b a = Some existing"
    by blast
  with t assms(1,2,3) show ?thesis
    by (auto simp: sendFriendRequest_def)
qed


theorem sendFriendRequest_conflict_witness:
  "resolve_friend sample_db (Some ''ann@x.com'') None = Some (hd sample_users)
   \<and> u_id (hd sample_users) = 1 \<and> (2::int) \<noteq> 1
   \<and> hd (friendships sample_db) \<in> set (friendships sample_db)
   \<and> links (hd (friendships sample_db)) 2 1
   \<and> sendFriendRequest 20 sample_db 2 (Some ''ann@x.com'') None = (Inl Conflict, sample_db)"
proof -
  have r: "resolve_friend sample_db (Some ''ann@x.com'') None = Some (hd sample_users)"
    by (simp add: resolve_friend_def findByEmail_def sample_db_def sample_users_def)
  have i: "u_id (hd sample_users) = 1"
    by (simp add: sample_users_def)
  have m: "hd (friendships sample_db) \<in> set (friendships sample_db)"
    by (simp add: sample_db_def)
  have l: "links (hd (friendships sample_db)) 2 1"
    by (simp add: sample_db_def links_def)
  have d: "(2::int) \<noteq> 1" by simp
  from sendFriendRequest_conflict [OF r i d m l, of 20] r i m l show ?thesis
    by simp
qed

lemma pair_unique_append:
  "pair_unique (fs @ [f]) \<longleftrightarrow>
     pair_unique fs \<and> (\<forall>g \<in> set fs. \<not> links g (user1_id f) (user2_id f))"
  by (induction fs) (auto simp: list_all_iff links_def)

lemma create_friendship_pair_unique:
  assumes "pair_unique (friendships s)"
    and "checkFriendship (friendships s) a b b a = None"
    and "create_friendship now s a b = Some s'"
  shows "pair_unique (friendships s')"
proof -
  from assms(2) have "\<forall>g \<in> set (friendships s). \<not> links g a b"
    by (simp add: checkFriendship_None_iff)
  with assms(1,3) show ?thesis
    by (auto simp: create_friendship_def Let_def pair_unique_append split: if_splits)
qed

lemma sendFriendRequest_pair_unique:
  assumes "pair_unique (friendships s)"
  shows "pair_unique (friendships (snd (sendFriendRequest now s me friendEmail friendUsername)))"
  using assms
  by (auto simp: sendFriendRequest_def split: option.splits
           dest: create_friendship_pair_unique)

lemma links_status_update:
  "links (if P f then f\<lparr>f_status := st\<rparr> else f) a b = links f a b"
  by (simp add: links_def)

lemma pair_unique_map_status:
  "pair_unique (map (\<lambda>f. if P f then f\<lparr>f_status := st\<rparr> else f) fs) = pair_unique fs"
proof (induction fs)
  case Nil
  then show ?case by simp
next
  case (Cons g gs)
  have "list_all (\<lambda>h. \<not> links h x y) (map (\<lambda>f. if P f then f\<lparr>f_status := st\<rparr> else f) gs)
        = list_all (\<lambda>h. \<not> links h x y) gs" for x y
    by (simp add: list.pred_map comp_def links_status_update)
  with Cons show ?case by simp
qed

lemma acceptFriendRequest_pair_unique:
  assumes "pair_unique (friendships s)"
  shows "pair_unique (friendships (snd (acceptFriendRequest s me requestId)))"
  using assms
  by (auto simp: acceptFriendRequest_def pair_unique_map_status split: option.splits)

section \<open>Token verification\<close>


lemma split_space_no_space: "CHR '' '' \<notin> set t \<Longrightarrow> split_space t = [t]"
  by (induction t) auto

lemma split_space_field:
  "CHR '' '' \<notin> set a \<Longrightarrow> split_space (a @ CHR '' '' # r) = a # split_space r"
  by (induction a) auto

lemma bearer_token_no_space:
  "CHR '' '' \<notin> set h \<Longrightarrow> \<not> truthy_str (bearer_token (Some h))"
  by (simp add: bearer_token_def split_space_no_space)

lemma bearer_token_two_fields:
  assumes "CHR '' '' \<notin> set scheme" and "CHR '' '' \<notin> set t"
  shows "bearer_token (Some (scheme @ CHR '' '' # t)) = Some t"
  using assms by (simp add: bearer_token_def split_space_field split_space_no_space)

lemma bearer_token_more_fields:
  assumes "CHR '' '' \<notin> set scheme" and "CHR '' '' \<notin> set t"
  shows "bearer_token (Some (scheme @ CHR '' '' # t @ CHR '' '' # rest)) = Some t"
proof -
  have "split_space (scheme @ CHR '' '' # (t @ CHR '' '' # rest)) = scheme # t # split_space rest"
    using assms by (simp add: split_space_field)
  then show ?thesis
    by (simp add: bearer_token_def)
qed

text \<open>Every header is of one of the three shapes.\<close>

lemma first_field:
  "CHR '' '' \<in> set h \<Longrightarrow> \<exists>a r. CHR '' '' \<notin> set a \<and> h = a @ CHR '' '' # r"
  using split_list_first [of "CHR '' ''" h] by blast

lemma header_shapes:
  "CHR '' '' \<notin> set h
   \<or> (\<exists>scheme t. CHR '' '' \<notin> set scheme \<and> CHR '' '' \<notin> set t
         \<and> (h = scheme @ '' '' @ t \<or> (\<exists>rest. h = scheme @ '' '' @ t @ '' '' @ rest)))"
proof (cases "CHR '' '' \<in> set h")
  case False
  then show ?thesis by simp
next
  case True
  then obtain a r where a: "CHR '' '' \<notin> set a" "h = a @ CHR '' '' # r"
    using first_field by blast
  show ?thesis
  proof (cases "CHR '' '' \<in> set r")
    case False
    with a show ?thesis by auto
  next
    case True
    then obtain t rest where "CHR '' '' \<notin> set t" "r = t @ CHR '' '' # rest"
      using first_field by blast
    with a show ?thesis by auto
  qed
qed

lemma authenticateToken_no_token:
  "\<not> truthy_str (bearer_token authHeader) \<Longrightarrow> authenticateToken verify authHeader = Inl Unauthorized"
  by (cases "bearer_token authHeader") (auto simp: authenticateToken_def)

lemma authenticateToken_token:
  "bearer_token authHeader = Some t \<Longrightarrow> t \<noteq> [] \<Longrightarrow>
   authenticateToken verify authHeader =
     (case verify t of Inl err \<Rightarrow> Inl Forbidden | Inr user \<Rightarrow> Inr user)"
  by (simp add: authenticateToken_def)

lemma authenticateToken_second_field:
  assumes "CHR '' '' \<notin> set scheme" and "CHR '' '' \<notin> set t"
    and "h = scheme @ '' '' @ t \<or> (\<exists>rest. h = scheme @ '' '' @ t @ '' '' @ rest)"
  shows "authenticateToken verify (Some h)
         = (if t = [] then Inl Unauthorized
            else case verify t of Inl err \<Rightarrow> Inl Forbidden | Inr user \<Rightarrow> Inr user)"
proof -
  from assms have "bearer_token (Some h) = Some t"
    by (auto simp: bearer_token_two_fields bearer_token_more_fields)
  then show ?thesis
    by (simp add: authenticateToken_def)
qed

text \<open>
  Claim C2, as the code has it, for every request. The token is the second
  space-separated field of the Authorization header. Verification answers Unauthorized
  (401) when no token reaches it: no header, a header without a space, or an empty
  second field. Otherwise the answer depends on that field alone, whatever follows it:
  a token that \<^verbatim>\<open>jwt.verify\<close> rejects, malformed or expired, is answered with Forbidden
  (403), and a token that \<^verbatim>\<open>jwt.verify\<close> accepts yields the payload embedded in it, with
  its user id. Every header has one of these shapes, and nothing is ever yielded but
  the payload of the verified token.
\<close>

theorem authenticateToken_outcomes:
  "authenticateToken verify None = Inl Unauthorized
   \<and> (CHR '' '' \<notin> set h \<longrightarrow> authenticateToken verify (Some h) = Inl Unauthorized)
   \<and> (CHR '' '' \<notin> set scheme \<and> CHR '' '' \<notin> set t
        \<and> (h = scheme @ '' '' @ t \<or> (\<exists>rest. h = scheme @ '' '' @ t @ '' '' @ rest))
      \<longrightarrow> (t = [] \<longrightarrow> authenticateToken verify (Some h) = Inl Unauthorized)
        \<and> (\<forall>err. t \<noteq> [] \<and> verify t = Inl err \<longrightarrow>
              authenticateToken verify (Some h) = Inl Forbidden)
        \<and> (\<forall>user. t \<noteq> [] \<and> verify t = Inr user \<longrightarrow>
              authenticateToken verify (Some h) = Inr user))
   \<and> (CHR '' '' \<notin> set h
       \<or> (\<exists>scheme t. CHR '' '' \<notin> set scheme \<and> CHR '' '' \<notin> set t
             \<and> (h = scheme @ '' '' @ t \<or> (\<exists>rest. h = scheme @ '' '' @ t @ '' '' @ rest))))
   \<and> (\<forall>user. authenticateToken verify authHeader = Inr user \<longrightarrow>
        (\<exists>token. bearer_token authHeader = Some token \<and> verify token = Inr user))"
proof (intro conjI impI allI)
  show "authenticateToken verify None = Inl Unauthorized"
    by (simp add: authenticateToken_def bearer_token_def)
next
  assume "CHR '' '' \<notin> set h"
  then show "authenticateToken verify (Some h) = Inl Unauthorized"
    by (intro authenticateToken_no_token bearer_token_no_space)
next
  assume h: "CHR '' '' \<notin> set scheme \<and> CHR '' '' \<notin> set t
        \<and> (h = scheme @ '' '' @ t \<or> (\<exists>rest. h = scheme @ '' '' @ t @ '' '' @ rest))"
    and "t = []"
  then show "authenticateToken verify (Some h) = Inl Unauthorized"
    using authenticateToken_second_field [of scheme t h verify] by simp
next
  fix err
  assume h: "CHR '' '' \<notin> set scheme \<and> CHR '' '' \<notin> set t
        \<and> (h = scheme @ '' '' @ t \<or> (\<exists>rest. h = scheme @ '' '' @ t @ '' '' @ rest))"
    and "t \<noteq> [] \<and> verify t = Inl err"
  then show "authenticateToken verify (Some h) = Inl Forbidden"
    using authenticateToken_second_field [of scheme t h verify] by simp
next
  fix user
  assume h: "CHR '' '' \<notin> set scheme \<and> CHR '' '' \<notin> set t
        \<and> (h = scheme @ '' '' @ t \<or> (\<exists>rest. h = scheme @ '' '' @ t @ '' '' @ rest))"
    and "t \<noteq> [] \<and> verify t = Inr user"
  then show "authenticateToken verify (Some h) = Inr user"
    using authenticateToken_second_field [of scheme t h verify] by simp
next
  show "CHR '' '' \<notin> set h
       \<or> (\<exists>scheme t. CHR '' '' \<notin> set scheme \<and> CHR '' '' \<notin> set t
             \<and> (h = scheme @ '' '' @ t \<or> (\<exists>rest. h = scheme @ '' '' @ t @ '' '' @ rest)))"
    by (rule header_shapes)
next
  fix user
  assume "authenticateToken verify authHeader = Inr user"
  then show "\<exists>token. bearer_token authHeader = Some token \<and> verify token = Inr user"
    by (auto simp: authenticateToken_def split: option.splits if_splits sum.splits)
qed


theorem authenticateToken_outcomes_witness:
  "sample_verify ''tok-old'' = Inl TokenExpiredError
   \<and> authenticateToken sample_verify (Some ''Bearer tok-old'') = Inl Forbidden
   \<and> sample_verify ''garbage'' = Inl JsonWebTokenError
   \<and> authenticateToken sample_verify (Some ''Bearer garbage'') = Inl Forbidden
   \<and> sample_verify ''tok-ann'' = Inr \<lparr>userId = 1, tok_email = ''ann@x.com''\<rparr>
   \<and> authenticateToken sample_verify (Some ''Bearer tok-ann'')
       = Inr \<lparr>userId = 1, tok_email = ''ann@x.com''\<rparr>
   \<and> authenticateToken sample_verify (Some ''Bearer tok-ann tok-old'')
       = Inr \<lparr>userId = 1, tok_email = ''ann@x.com''\<rparr>
   \<and> authenticateToken sample_verify (Some ''Bearer tok-old tok-ann'') = Inl Forbidden
   \<and> authenticateToken sample_verify (Some ''Bearer  tok-ann'') = Inl Unauthorized
   \<and> authenticateToken sample_verify (Some ''Bearer'') = Inl Unauthorized
   \<and> authenticateToken sample_verify (Some ''Bearer '') = Inl Unauthorized
   \<and> authenticateToken sample_verify None = Inl Unauthorized"
proof -
  have v1: "sample_verify ''tok-old'' = Inl TokenExpiredError"
    and v2: "sample_verify ''garbage'' = Inl JsonWebTokenError"
    and v3: "sample_verify ''tok-ann'' = Inr \<lparr>userId = 1, tok_email = ''ann@x.com''\<rparr>"
    by (simp_all add: sample_verify_def)
  from authenticateToken_outcomes [of sample_verify "''Bearer tok-old''" "''Bearer''" "''tok-old''"] v1
  have a: "authenticateToken sample_verify (Some ''Bearer tok-old'') = Inl Forbidden"
    and n: "authenticateToken sample_verify None = Inl Unauthorized"
    by simp_all
  from authenticateToken_outcomes [of sample_verify "''Bearer garbage''" "''Bearer''" "''garbage''"] v2
  have b: "authenticateToken sample_verify (Some ''Bearer garbage'') = Inl Forbidden"
    by simp
  from authenticateToken_outcomes [of sample_verify "''Bearer tok-ann''" "''Bearer''" "''tok-ann''"] v3
  have c: "authenticateToken sample_verify (Some ''Bearer tok-ann'')
       = Inr \<lparr>userId = 1, tok_email = ''ann@x.com''\<rparr>"
    by simp
  from authenticateToken_outcomes
    [of sample_verify "''Bearer tok-ann tok-old''" "''Bearer''" "''tok-ann''"] v3
  have d: "authenticateToken sample_verify (Some ''Bearer tok-ann tok-old'')
       = Inr \<lparr>userId = 1, tok_email = ''ann@x.com''\<rparr>"
    by simp
  from authenticateToken_outcomes
    [of sample_verify "''Bearer tok-old tok-ann''" "''Bearer''" "''tok-old''"] v1
  have e: "authenticateToken sample_verify (Some ''Bearer tok-old tok-ann'') = Inl Forbidden"
    by simp
  from authenticateToken_outcomes [of sample_verify "''Bearer  tok-ann''" "''Bearer''" "[]"]
  have f: "authenticateToken sample_verify (Some ''Bearer  tok-ann'') = Inl Unauthorized"
    by simp
  from authenticateToken_outcomes [of sample_verify "''Bearer''"]
  have g: "authenticateToken sample_verify (Some ''Bearer'') = Inl Unauthorized"
    by simp
  from authenticateToken_outcomes [of sample_verify "''Bearer ''" "''Bearer''" "[]"]
  have i: "authenticateToken sample_verify (Some ''Bearer '') = Inl Unauthorized"
    by simp
  from v1 v2 v3 a b c d e f g i n show ?thesis by simp
qed

text \<open>
  Claim C2 as stated fails: an expired token is answered with Forbidden, not with
  Unauthorized.
\<close>

theorem authenticateToken_expired_counterexample:
  "sample_verify ''tok-old'' = Inl TokenExpiredError
   \<and> authenticateToken sample_verify (Some ''Bearer tok-old'') = Inl Forbidden
   \<and> authenticateToken sample_verify (Some ''Bearer tok-old'') \<noteq> Inl Unauthorized"
  by (simp add: sample_verify_def authenticateToken_def bearer_token_def)

section \<open>Card upsert: the size column\<close>


lemma update_card_frame:
  "map (\<lambda>c. (card_id c, card_user_id c, card_size c, card_created_at c))
       (update_card now cs g d uid)
   = map (\<lambda>c. (card_id c, card_user_id c, card_size c, card_created_at c)) cs"
  by (induction cs) (auto simp: update_card_def)

lemma update_card_find:
  "findByUserId cs uid = Some c \<Longrightarrow>
   findByUserId (update_card now cs g d uid) uid
     = Some (c\<lparr>grid_data := g, completed_data := d, updated_at := now\<rparr>)"
  by (induction cs) (auto simp: update_card_def findByUserId_def)

lemma saveCard_bad_request:
  "\<not> (truthy_int sz \<and> truthy_json grid \<and> truthy_json completed)
   \<Longrightarrow> saveCard now s me sz grid completed = (Inl BadRequest, s)"
  by (auto simp: saveCard_def)

lemma saveCard_update:
  assumes "findByUserId (bingo_cards s) me = Some existing"
    and "truthy_int sz" and "truthy_json (Some g)" and "truthy_json (Some d)"
  shows "saveCard now s me sz (Some g) (Some d)
         = (Inr Ok200, s\<lparr>bingo_cards := update_card now (bingo_cards s) g d me\<rparr>)"
  using assms by (cases sz) (auto simp: saveCard_def)

text \<open>
  Claim C10. When the user already has a card row, saving a card with any payload
  leaves the columns \<^verbatim>\<open>id\<close>, \<^verbatim>\<open>user_id\<close>, \<^verbatim>\<open>size\<close> and \<^verbatim>\<open>created_at\<close> of every card row as
  they were; the user's row keeps the stored size whatever size the payload carries.
  A payload that passes validation is answered with success and writes exactly the
  grid data, the completion data and the update timestamp of that row.
\<close>

theorem saveCard_keeps_size:
  assumes "findByUserId (bingo_cards s) me = Some existing"
  shows "map (\<lambda>c. (card_id c, card_user_id c, card_size c, card_created_at c))
             (bingo_cards (snd (saveCard now s me sz grid completed)))
         = map (\<lambda>c. (card_id c, card_user_id c, card_size c, card_created_at c)) (bingo_cards s)
       \<and> (\<exists>c. findByUserId (bingo_cards (snd (saveCard now s me sz grid completed))) me = Some c
              \<and> card_size c = card_size existing)
       \<and> (truthy_int sz \<and> truthy_json grid \<and> truthy_json completed \<longrightarrow>
            fst (saveCard now s me sz grid completed) = Inr Ok200
            \<and> (\<exists>c. findByUserId (bingo_cards (snd (saveCard now s me sz grid completed))) me = Some c
                   \<and> Some (grid_data c) = grid \<and> Some (completed_data c) = completed
                   \<and> updated_at c = now))"
proof (cases "truthy_int sz \<and> truthy_json grid \<and> truthy_json completed")
  case False
  then have "saveCard now s me sz grid completed = (Inl BadRequest, s)"
    by (rule saveCard_bad_request)
  with False assms show ?thesis by simp
next
  case True
  then obtain g d where gd: "grid = Some g" "completed = Some d"
    by (cases grid; cases completed) auto
  with True assms have
    "saveCard now s me sz grid completed
       = (Inr Ok200, s\<lparr>bingo_cards := update_card now (bingo_cards s) g d me\<rparr>)"
    by (simp add: saveCard_update)
  with assms gd show ?thesis
    by (simp add: update_card_frame update_card_find)
qed

theorem saveCard_keeps_size_witness:
  "findByUserId (bingo_cards sample_db) 1 = Some (hd (bingo_cards sample_db))
   \<and> card_size (hd (bingo_cards sample_db)) = 3
   \<and> fst (saveCard 30 sample_db 1 (Some 5) (Some (JArr [JStr ''run''])) (Some (JArr [JBool True])))
       = Inr Ok200
   \<and> map card_size
        (bingo_cards (snd (saveCard 30 sample_db 1 (Some 5) (Some (JArr [JStr ''run'']))
                             (Some (JArr [JBool True])))))
       = [3]"
proof -
  have f: "findByUserId (bingo_cards sample_db) 1 = Some (hd (bingo_cards sample_db))"
    by (simp add: findByUserId_def sample_db_def)
  have z: "card_size (hd (bingo_cards sample_db)) = 3"
    by (simp add: sample_db_def)
  have m: "map (\<lambda>c. (card_id c, card_user_id c, card_size c, card_created_at c))
             (bingo_cards sample_db) = [(1, 1, 3, 5)]"
    by (simp add: sample_db_def)
  let ?s' = "snd (saveCard 30 sample_db 1 (Some 5) (Some (JArr [JStr ''run'']))
                    (Some (JArr [JBool True])))"
  from saveCard_keeps_size [OF f, of 30 "Some 5" "Some (JArr [JStr ''run''])"
      "Some (JArr [JBool True])"]
  have k: "map (\<lambda>c. (card_id c, card_user_id c, card_size c, card_created_at c))
             (bingo_cards ?s') = [(1, 1, 3, 5)]"
    and r: "fst (saveCard 30 sample_db 1 (Some 5) (Some (JArr [JStr ''run'']))
                  (Some (JArr [JBool True]))) = Inr Ok200"
    by (simp_all add: m)
  have "map card_size (bingo_cards ?s')
        = map (\<lambda>p. fst (snd (snd p)))
            (map (\<lambda>c. (card_id c, card_user_id c, card_size c, card_created_at c))
               (bingo_cards ?s'))"
    by (simp add: comp_def)
  with k have "map card_size (bingo_cards ?s') = [3]" by simp
  with f z r show ?thesis by simp
qed

section \<open>Comment listings: private comments\<close>


lemma join_author_fst:
  "r \<in> set (join_author us c) \<Longrightarrow> fst r = c \<and> findById us (author_id c) \<noteq> None"
  by (cases "findById us (author_id c)") (auto simp: join_author_def)

lemma join_author_nonempty:
  "findById us (author_id c) \<noteq> None \<Longrightarrow> \<exists>n. (c, n) \<in> set (join_author us c)"
  by (cases "findById us (author_id c)") (auto simp: join_author_def)

lemma getByCard_fst_set:
  "fst ` set (getByCard s owner)
   = {c \<in> set (comments s). card_owner_id c = owner \<and> findById (users s) (author_id c) \<noteq> None}"
proof (intro set_eqI iffI)
  fix c
  assume "c \<in> fst ` set (getByCard s owner)"
  then show "c \<in> {c \<in> set (comments s). card_owner_id c = owner
                      \<and> findById (users s) (author_id c) \<noteq> None}"
    by (auto simp: getByCard_def dest: join_author_fst)
next
  fix c
  assume "c \<in> {c \<in> set (comments s). card_owner_id c = owner
                   \<and> findById (users s) (author_id c) \<noteq> None}"
  then have c: "c \<in> set (comments s)" "card_owner_id c = owner"
    and "findById (users s) (author_id c) \<noteq> None"
    by simp_all
  then obtain n where "(c, n) \<in> set (join_author (users s) c)"
    using join_author_nonempty by blast
  with c have "(c, n) \<in> set (getByCard s owner)"
    by (auto simp: getByCard_def)
  then show "c \<in> fst ` set (getByCard s owner)"
    by force
qed

lemma getByTask_fst_set:
  "fst ` set (getByTask s owner r cl)
   = {c \<in> set (comments s). card_owner_id c = owner \<and> c_row c = r \<and> c_col c = cl
        \<and> findById (users s) (author_id c) \<noteq> None}"
proof (intro set_eqI iffI)
  fix c
  assume "c \<in> fst ` set (getByTask s owner r cl)"
  then show "c \<in> {c \<in> set (comments s). card_owner_id c = owner \<and> c_row c = r \<and> c_col c = cl
                      \<and> findById (users s) (author_id c) \<noteq> None}"
    by (auto simp: getByTask_def dest: join_author_fst)
next
  fix c
  assume "c \<in> {c \<in> set (comments s). card_owner_id c = owner \<and> c_row c = r \<and> c_col c = cl
                   \<and> findById (users s) (author_id c) \<noteq> None}"
  then have c: "c \<in> set (comments s)" "card_owner_id c = owner" "c_row c = r" "c_col c = cl"
    and "findById (users s) (author_id c) \<noteq> None"
    by simp_all
  then obtain n where "(c, n) \<in> set (join_author (users s) c)"
    using join_author_nonempty by blast
  with c have "(c, n) \<in> set (getByTask s owner r cl)"
    by (auto simp: getByTask_def)
  then show "c \<in> fst ` set (getByTask s owner r cl)"
    by force
qed

lemma fst_set_filter_visible:
  "fst ` set (filter (visible_to me owner) rows)
   = {c \<in> fst ` set rows. owner = me \<or> \<not> is_private c \<or> author_id c = me}"
  by (auto simp: visible_to_def image_iff split: if_splits)


lemma listComments_rows:
  "listComments s me owner = Inr rows \<Longrightarrow>
   fst ` set rows = {c \<in> set (comments s). card_owner_id c = owner
                       \<and> findById (users s) (author_id c) \<noteq> None
                       \<and> (owner = me \<or> \<not> is_private c \<or> author_id c = me)}"
proof -
  assume "listComments s me owner = Inr rows"
  then have "rows = filter (visible_to me owner) (getByCard s owner)"
    by (simp add: listComments_def split: if_splits)
  then have "fst ` set rows
       = {c \<in> fst ` set (getByCard s owner). owner = me \<or> \<not> is_private c \<or> author_id c = me}"
    by (simp only: fst_set_filter_visible)
  then show ?thesis
    unfolding getByCard_fst_set by blast
qed

lemma listTaskComments_rows:
  "listTaskComments s me owner r cl = Inr rows \<Longrightarrow>
   fst ` set rows = {c \<in> set (comments s). card_owner_id c = owner \<and> c_row c = r \<and> c_col c = cl
                       \<and> findById (users s) (author_id c) \<noteq> None
                       \<and> (owner = me \<or> \<not> is_private c \<or> author_id c = me)}"
proof -
  assume "listTaskComments s me owner r cl = Inr rows"
  then have "rows = filter (visible_to me owner) (getByTask s owner r cl)"
    by (simp add: listTaskComments_def split: if_splits)
  then have "fst ` set rows
       = {c \<in> fst ` set (getByTask s owner r cl).
            owner = me \<or> \<not> is_private c \<or> author_id c = me}"
    by (simp only: fst_set_filter_visible)
  then show ?thesis
    unfolding getByTask_fst_set by blast
qed

lemma listComments_allowed:
  "me = owner \<or> isAcceptedFriend (friendships s) me owner \<Longrightarrow> \<exists>rows. listComments s me owner = Inr rows"
  by (auto simp: listComments_def)

lemma listTaskComments_allowed:
  "me = owner \<or> isAcceptedFriend (friendships s) me owner
   \<Longrightarrow> \<exists>rows. listTaskComments s me owner r cl = Inr rows"
  by (auto simp: listTaskComments_def)

text \<open>
  Claim C4. Let \<open>c\<close> be a private comment that \<open>a\<close> wrote on the card of \<open>b\<close>. For a third
  user \<open>x\<close>, no list that either listing handler returns for \<open>b\<close>'s card contains \<open>c\<close>,
  and when \<open>x\<close> is an accepted friend of \<open>b\<close> a list is returned and \<open>c\<close> is absent from
  it. The list returned to \<open>b\<close> contains \<open>c\<close>; every list returned to \<open>a\<close> contains \<open>c\<close>, and
  one is returned while \<open>a\<close> is \<open>b\<close> or an accepted friend of \<open>b\<close>. (The queries join the
  author's user row, which the foreign key of \<^verbatim>\<open>comments.author_id\<close> provides.)
\<close>

theorem private_comment_visibility:
  assumes "c \<in> set (comments s)" and "is_private c"
    and "author_id c = a" and "card_owner_id c = b"
  shows "(\<forall>x. x \<noteq> a \<and> x \<noteq> b \<longrightarrow>
            (\<forall>rows. listComments s x b = Inr rows \<longrightarrow> c \<notin> fst ` set rows)
          \<and> (\<forall>rows r cl. listTaskComments s x b r cl = Inr rows \<longrightarrow> c \<notin> fst ` set rows)
          \<and> (isAcceptedFriend (friendships s) x b \<longrightarrow>
               (\<exists>rows. listComments s x b = Inr rows \<and> c \<notin> fst ` set rows)
             \<and> (\<exists>rows. listTaskComments s x b (c_row c) (c_col c) = Inr rows
                        \<and> c \<notin> fst ` set rows)))
       \<and> (findById (users s) a \<noteq> None \<longrightarrow>
            (\<exists>rows. listComments s b b = Inr rows \<and> c \<in> fst ` set rows)
          \<and> (\<exists>rows. listTaskComments s b b (c_row c) (c_col c) = Inr rows \<and> c \<in> fst ` set rows)
          \<and> (\<forall>rows. listComments s a b = Inr rows \<longrightarrow> c \<in> fst ` set rows)
          \<and> (\<forall>rows. listTaskComments s a b (c_row c) (c_col c) = Inr rows
                 \<longrightarrow> c \<in> fst ` set rows)
          \<and> (a = b \<or> isAcceptedFriend (friendships s) a b \<longrightarrow>
               (\<exists>rows. listComments s a b = Inr rows \<and> c \<in> fst ` set rows)
             \<and> (\<exists>rows. listTaskComments s a b (c_row c) (c_col c) = Inr rows
                        \<and> c \<in> fst ` set rows)))"
proof -
  have hidden: "c \<notin> fst ` set rows" if "listComments s x b = Inr rows" "x \<noteq> a" "x \<noteq> b"
    for x rows
    using listComments_rows [OF that(1)] that(2,3) assms by auto
  have hidden_task: "c \<notin> fst ` set rows"
    if "listTaskComments s x b r cl = Inr rows" "x \<noteq> a" "x \<noteq> b" for x rows r cl
    using listTaskComments_rows [OF that(1)] that(2,3) assms by auto
  have own: "c \<in> fst ` set rows"
    if "listComments s x b = Inr rows" "x = a \<or> x = b" "findById (users s) a \<noteq> None"
    for x rows
    using listComments_rows [OF that(1)] that(2,3) assms by auto
  have own_task: "c \<in> fst ` set rows"
    if "listTaskComments s x b (c_row c) (c_col c) = Inr rows" "x = a \<or> x = b"
      "findById (users s) a \<noteq> None" for x rows
    using listTaskComments_rows [OF that(1)] that(2,3) assms by auto
  have part1: "\<forall>x. x \<noteq> a \<and> x \<noteq> b \<longrightarrow>
            (\<forall>rows. listComments s x b = Inr rows \<longrightarrow> c \<notin> fst ` set rows)
          \<and> (\<forall>rows r cl. listTaskComments s x b r cl = Inr rows \<longrightarrow> c \<notin> fst ` set rows)
          \<and> (isAcceptedFriend (friendships s) x b \<longrightarrow>
               (\<exists>rows. listComments s x b = Inr rows \<and> c \<notin> fst ` set rows)
             \<and> (\<exists>rows. listTaskComments s x b (c_row c) (c_col c) = Inr rows
                        \<and> c \<notin> fst ` set rows))"
  proof (intro allI impI conjI)
    fix x rows
    assume "x \<noteq> a \<and> x \<noteq> b" "listComments s x b = Inr rows"
    then show "c \<notin> fst ` set rows" using hidden by blast
  next
    fix x rows r cl
    assume "x \<noteq> a \<and> x \<noteq> b" "listTaskComments s x b r cl = Inr rows"
    then show "c \<notin> fst ` set rows" using hidden_task by blast
  next
    fix x
    assume x: "x \<noteq> a \<and> x \<noteq> b" and fr: "isAcceptedFriend (friendships s) x b"
    from fr obtain rows where "listComments s x b = Inr rows"
      using listComments_allowed by blast
    with x show "\<exists>rows. listComments s x b = Inr rows \<and> c \<notin> fst ` set rows"
      using hidden by blast
    from fr obtain rows' where "listTaskComments s x b (c_row c) (c_col c) = Inr rows'"
      using listTaskComments_allowed by blast
    with x show "\<exists>rows. listTaskComments s x b (c_row c) (c_col c) = Inr rows
                        \<and> c \<notin> fst ` set rows"
      using hidden_task by blast
  qed
  have part2: "(\<exists>rows. listComments s b b = Inr rows \<and> c \<in> fst ` set rows)
          \<and> (\<exists>rows. listTaskComments s b b (c_row c) (c_col c) = Inr rows \<and> c \<in> fst ` set rows)
          \<and> (\<forall>rows. listComments s a b = Inr rows \<longrightarrow> c \<in> fst ` set rows)
          \<and> (\<forall>rows. listTaskComments s a b (c_row c) (c_col c) = Inr rows
                 \<longrightarrow> c \<in> fst ` set rows)
          \<and> (a = b \<or> isAcceptedFriend (friendships s) a b \<longrightarrow>
               (\<exists>rows. listComments s a b = Inr rows \<and> c \<in> fst ` set rows)
             \<and> (\<exists>rows. listTaskComments s a b (c_row c) (c_col c) = Inr rows
                        \<and> c \<in> fst ` set rows))"
    if u: "findById (users s) a \<noteq> None"
  proof (intro allI impI conjI)
    obtain rows where "listComments s b b = Inr rows"
      using listComments_allowed [of b b s] by blast
    with u show "\<exists>rows. listComments s b b = Inr rows \<and> c \<in> fst ` set rows"
      using own by blast
    obtain rows' where "listTaskComments s b b (c_row c) (c_col c) = Inr rows'"
      using listTaskComments_allowed [of b b s] by blast
    with u show "\<exists>rows. listTaskComments s b b (c_row c) (c_col c) = Inr rows
                        \<and> c \<in> fst ` set rows"
      using own_task by blast
  next
    fix rows
    assume "listComments s a b = Inr rows"
    with u show "c \<in> fst ` set rows" using own by blast
  next
    fix rows
    assume "listTaskComments s a b (c_row c) (c_col c) = Inr rows"
    with u show "c \<in> fst ` set rows" using own_task by blast
  next
    assume fr: "a = b \<or> isAcceptedFriend (friendships s) a b"
    then obtain rows where "listComments s a b = Inr rows"
      using listComments_allowed by blast
    with u show "\<exists>rows. listComments s a b = Inr rows \<and> c \<in> fst ` set rows"
      using own by blast
    from fr obtain rows' where "listTaskComments s a b (c_row c) (c_col c) = Inr rows'"
      using listTaskComments_allowed by blast
    with u show "\<exists>rows. listTaskComments s a b (c_row c) (c_col c) = Inr rows
                        \<and> c \<in> fst ` set rows"
      using own_task by blast
  qed
  from part1 part2 show ?thesis by blast
qed

theorem private_comment_visibility_witness:
  "sample_comment \<in> set (comments sample_db) \<and> is_private sample_comment
   \<and> author_id sample_comment = 1 \<and> card_owner_id sample_comment = 2
   \<and> isAcceptedFriend (friendships sample_db) 3 2
   \<and> isAcceptedFriend (friendships sample_db) 1 2
   \<and> findById (users sample_db) 1 \<noteq> None
   \<and> (\<exists>rows. listComments sample_db 3 2 = Inr rows \<and> sample_comment \<notin> fst ` set rows)
   \<and> (\<exists>rows. listTaskComments sample_db 3 2 0 0 = Inr rows \<and> sample_comment \<notin> fst ` set rows)
   \<and> (\<exists>rows. listComments sample_db 2 2 = Inr rows \<and> sample_comment \<in> fst ` set rows)
   \<and> (\<exists>rows. listTaskComments sample_db 2 2 0 0 = Inr rows \<and> sample_comment \<in> fst ` set rows)
   \<and> (\<exists>rows. listComments sample_db 1 2 = Inr rows \<and> sample_comment \<in> fst ` set rows)
   \<and> (\<exists>rows. listTaskComments sample_db 1 2 0 0 = Inr rows \<and> sample_comment \<in> fst ` set rows)"
proof -
  have m: "sample_comment \<in> set (comments sample_db)"
    by (simp add: sample_db_def)
  have p: "is_private sample_comment" and a: "author_id sample_comment = 1"
    and b: "card_owner_id sample_comment = 2"
    and rc: "c_row sample_comment = 0" "c_col sample_comment = 0"
    by (simp_all add: sample_comment_def)
  have f3: "isAcceptedFriend (friendships sample_db) 3 2"
    and f1: "isAcceptedFriend (friendships sample_db) 1 2"
    by (simp_all add: isAcceptedFriend_def checkFriendship_def sample_db_def)
  have u: "findById (users sample_db) 1 \<noteq> None"
    by (simp add: findById_def sample_db_def sample_users_def)
  have d: "(3::int) \<noteq> 1 \<and> (3::int) \<noteq> 2" by simp
  note t = private_comment_visibility [OF m p a b]
  from t d f3 have x: "(\<exists>rows. listComments sample_db 3 2 = Inr rows
                            \<and> sample_comment \<notin> fst ` set rows)
     \<and> (\<exists>rows. listTaskComments sample_db 3 2 (c_row sample_comment) (c_col sample_comment)
                  = Inr rows \<and> sample_comment \<notin> fst ` set rows)"
    by blast
  from t u f1 have y: "(\<exists>rows. listComments sample_db 2 2 = Inr rows
                            \<and> sample_comment \<in> fst ` set rows)
     \<and> (\<exists>rows. listTaskComments sample_db 2 2 (c_row sample_comment) (c_col sample_comment)
                  = Inr rows \<and> sample_comment \<in> fst ` set rows)
     \<and> (\<exists>rows. listComments sample_db 1 2 = Inr rows \<and> sample_comment \<in> fst ` set rows)
     \<and> (\<exists>rows. listTaskComments sample_db 1 2 (c_row sample_comment) (c_col sample_comment)
                  = Inr rows \<and> sample_comment \<in> fst ` set rows)"
    by blast
  from m p a b f3 f1 u x y rc show ?thesis by simp
qed

section \<open>Reactions: one row per comment, user and emoji\<close>


lemma create_reaction_duplicate:
  "r \<in> set (reactions s) \<Longrightarrow> r_comment_id r = c \<Longrightarrow> r_user_id r = u \<Longrightarrow> emoji r = e
   \<Longrightarrow> create_reaction now s c u e = Inl UniqueConstraint"
  by (auto simp: create_reaction_def list_ex_iff)

lemma fk_reactions_row:
  "fk_reactions s \<Longrightarrow> r \<in> set (reactions s)
   \<Longrightarrow> list_ex (\<lambda>c. c_id c = r_comment_id r) (comments s)
       \<and> findById (users s) (r_user_id r) \<noteq> None"
  by (simp add: fk_reactions_def list_all_iff)

lemma create_reaction_fresh:
  assumes "\<not> (\<exists>r \<in> set (reactions s). r_comment_id r = c \<and> r_user_id r = u \<and> emoji r = e)"
    and "list_ex (\<lambda>x. c_id x = c) (comments s)" and "findById (users s) u \<noteq> None"
  shows "\<exists>i. create_reaction now s c u e
           = Inr (s\<lparr>reactions := reactions s @
                       [\<lparr>r_id = i, r_comment_id = c, r_user_id = u, emoji = e,
                         r_created_at = now\<rparr>],
                     seq_reactions := i\<rparr>)"
  using assms by (auto simp: create_reaction_def list_ex_iff Let_def)

text \<open>
  Claim C7. Adding the reaction \<open>(c, u, e)\<close> while a row with that triple exists is answered
  with Conflict and the database is returned as it was. In the same state, and with the
  foreign keys of the reactions table intact, adding \<open>(c, u, e')\<close> for another emoji \<open>e'\<close>
  that \<open>u\<close> has not yet put on \<open>c\<close> succeeds and appends exactly that row. (Both requests
  pass the handler's validation: a non-zero comment id and a non-empty emoji.)
\<close>

theorem addReaction_unique_triple:
  "(r \<in> set (reactions s) \<and> r_comment_id r = c \<and> r_user_id r = u \<and> emoji r = e
      \<and> c \<noteq> 0 \<and> e \<noteq> []
    \<longrightarrow> addReaction now s u (Some c) (Some e) = (Inl Conflict, s))
   \<and> (fk_reactions s
      \<and> r \<in> set (reactions s) \<and> r_comment_id r = c \<and> r_user_id r = u \<and> emoji r = e
      \<and> c \<noteq> 0 \<and> e' \<noteq> [] \<and> e' \<noteq> e
      \<and> \<not> (\<exists>r' \<in> set (reactions s). r_comment_id r' = c \<and> r_user_id r' = u \<and> emoji r' = e')
    \<longrightarrow> fst (addReaction now s u (Some c) (Some e')) = Inr Created201
       \<and> (\<exists>i. reactions (snd (addReaction now s u (Some c) (Some e')))
                = reactions s @ [\<lparr>r_id = i, r_comment_id = c, r_user_id = u, emoji = e',
                                   r_created_at = now\<rparr>]))"
proof (intro conjI impI)
  assume h: "r \<in> set (reactions s) \<and> r_comment_id r = c \<and> r_user_id r = u \<and> emoji r = e
      \<and> c \<noteq> 0 \<and> e \<noteq> []"
  then have "create_reaction now s c u e = Inl UniqueConstraint"
    by (intro create_reaction_duplicate [of r]) simp_all
  with h show "addReaction now s u (Some c) (Some e) = (Inl Conflict, s)"
    by (simp add: addReaction_def)
next
  assume h: "fk_reactions s
      \<and> r \<in> set (reactions s) \<and> r_comment_id r = c \<and> r_user_id r = u \<and> emoji r = e
      \<and> c \<noteq> 0 \<and> e' \<noteq> [] \<and> e' \<noteq> e
      \<and> \<not> (\<exists>r' \<in> set (reactions s). r_comment_id r' = c \<and> r_user_id r' = u \<and> emoji r' = e')"
  then have "list_ex (\<lambda>x. c_id x = c) (comments s)" "findById (users s) u \<noteq> None"
    using fk_reactions_row [of s r] by auto
  with h obtain i where
    "create_reaction now s c u e'
       = Inr (s\<lparr>reactions := reactions s @
                   [\<lparr>r_id = i, r_comment_id = c, r_user_id = u, emoji = e', r_created_at = now\<rparr>],
                 seq_reactions := i\<rparr>)"
    using create_reaction_fresh [of s c u e' now] by blast
  with h have res: "addReaction now s u (Some c) (Some e')
       = (Inr Created201,
          s\<lparr>reactions := reactions s @
                   [\<lparr>r_id = i, r_comment_id = c, r_user_id = u, emoji = e', r_created_at = now\<rparr>],
            seq_reactions := i\<rparr>)"
    by (simp add: addReaction_def)
  then show "fst (addReaction now s u (Some c) (Some e')) = Inr Created201"
    by simp
  from res show "\<exists>i. reactions (snd (addReaction now s u (Some c) (Some e')))
                = reactions s @ [\<lparr>r_id = i, r_comment_id = c, r_user_id = u, emoji = e',
                                   r_created_at = now\<rparr>]"
    by simp
qed

theorem addReaction_unique_triple_witness:
  "fk_reactions sample_db
   \<and> hd (reactions sample_db) \<in> set (reactions sample_db)
   \<and> r_comment_id (hd (reactions sample_db)) = 1 \<and> r_user_id (hd (reactions sample_db)) = 1
   \<and> emoji (hd (reactions sample_db)) = ''party''
   \<and> addReaction 40 sample_db 1 (Some 1) (Some ''party'') = (Inl Conflict, sample_db)
   \<and> \<not> (\<exists>r' \<in> set (reactions sample_db).
           r_comment_id r' = 1 \<and> r_user_id r' = 1 \<and> emoji r' = ''heart'')
   \<and> fst (addReaction 40 sample_db 1 (Some 1) (Some ''heart'')) = Inr Created201
   \<and> (\<exists>i. reactions (snd (addReaction 40 sample_db 1 (Some 1) (Some ''heart'')))
           = reactions sample_db @ [\<lparr>r_id = i, r_comment_id = 1, r_user_id = 1, emoji = ''heart'',
                                      r_created_at = 40\<rparr>])"
proof -
  have fk: "fk_reactions sample_db"
    by (simp add: fk_reactions_def sample_db_def sample_comment_def findById_def sample_users_def)
  have m: "hd (reactions sample_db) \<in> set (reactions sample_db)"
    and c: "r_comment_id (hd (reactions sample_db)) = 1"
    and u: "r_user_id (hd (reactions sample_db)) = 1"
    and e: "emoji (hd (reactions sample_db)) = ''party''"
    by (simp_all add: sample_db_def)
  have n: "\<not> (\<exists>r' \<in> set (reactions sample_db).
           r_comment_id r' = 1 \<and> r_user_id r' = 1 \<and> emoji r' = ''heart'')"
    by (simp add: sample_db_def)
  note t = addReaction_unique_triple [of "hd (reactions sample_db)" sample_db 1 1 "''party''"
      40 "''heart''"]
  from t m c u e have a: "addReaction 40 sample_db 1 (Some 1) (Some ''party'') = (Inl Conflict, sample_db)"
    by simp
  from t fk m c u e n
  have b: "fst (addReaction 40 sample_db 1 (Some 1) (Some ''heart'')) = Inr Created201
   \<and> (\<exists>i. reactions (snd (addReaction 40 sample_db 1 (Some 1) (Some ''heart'')))
           = reactions sample_db @ [\<lparr>r_id = i, r_comment_id = 1, r_user_id = 1, emoji = ''heart'',
                                      r_created_at = 40\<rparr>])"
    by simp
  from fk m c u e n a b show ?thesis by blast
qed

section \<open>Reaction listing\<close>


lemma group_step_extend:
  "emoji (fst x) \<notin> set object_prototype_keys \<Longrightarrow> group_step grouped x = Some (extend grouped [x])"
  by (auto simp: group_step_def extend_def names_for_def fun_eq_iff split: option.splits)

lemma extend_extend: "extend (extend grouped [x]) xs = extend grouped (x # xs)"
  by (auto simp: extend_def names_for_def fun_eq_iff split: option.splits)

lemma group_by_emoji_extend:
  "list_all (\<lambda>x. emoji (fst x) \<notin> set object_prototype_keys) rows
   \<Longrightarrow> group_by_emoji grouped rows = Some (extend grouped rows)"
proof (induction rows arbitrary: grouped)
  case Nil
  show ?case by (simp add: extend_def names_for_def fun_eq_iff split: option.splits)
next
  case (Cons x xs)
  then show ?case
    by (simp add: group_step_extend extend_extend)
qed

lemma group_step_prototype:
  "emoji (fst x) \<in> set object_prototype_keys \<Longrightarrow> grouped (emoji (fst x)) = None
   \<Longrightarrow> group_step grouped x = None"
  by (simp add: group_step_def)

lemma listReactions_grouped:
  "list_all (\<lambda>x. emoji (fst x) \<notin> set object_prototype_keys) (getByComment s c)
   \<Longrightarrow> listReactions s me c = Inr (extend Map.empty (getByComment s c))"
  by (simp add: listReactions_def group_by_emoji_extend)

lemma listReactions_any_requester: "listReactions s me c = listReactions s me' c"
  by (simp add: listReactions_def)

text \<open>
  Claim C9 at a failing input. Ann reacts to comment 1 with the text \<^verbatim>\<open>constructor\<close>,
  which the reaction handler accepts like any non-empty string. Listing the reactions of
  comment 1 then fails with status 500 for every requester: \<^verbatim>\<open>grouped['constructor']\<close>
  is the function inherited from \<^verbatim>\<open>Object.prototype\<close>, so no array is created and the
  call of \<^verbatim>\<open>.push\<close> throws. The lemmas before this theorem show that the listing ignores
  the requester and groups every row by emoji when no emoji is an inherited name.
\<close>

theorem listReactions_inherited_name:
  "fst (addReaction 13 (sample_db\<lparr>reactions := []\<rparr>) 1 (Some 1) (Some ''constructor''))
     = Inr Created201
   \<and> listReactions (snd (addReaction 13 (sample_db\<lparr>reactions := []\<rparr>) 1 (Some 1)
                           (Some ''constructor''))) 3 1
     = Inl Internal"
  by (simp add: addReaction_def create_reaction_def sample_db_def sample_comment_def
        findById_def sample_users_def next_rowid_def listReactions_def getByComment_def
        join_reactor_def group_step_def object_prototype_keys_def)

theorem listReactions_inherited_name_witness:
  "listReactions (snd (addReaction 13 (sample_db\<lparr>reactions := []\<rparr>) 1 (Some 1)
                         (Some ''constructor''))) 2 1
     = Inl Internal"
  using listReactions_inherited_name
    listReactions_any_requester
      [of "snd (addReaction 13 (sample_db\<lparr>reactions := []\<rparr>) 1 (Some 1) (Some ''constructor''))"
          2 1 3]
  by simp

section \<open>Leaving a group as its only admin\<close>


lemma unique_members_eq:
  assumes "unique_members ms" and "x \<in> set ms" and "y \<in> set ms"
    and "gm_group_id x = gm_group_id y" and "gm_user_id x = gm_user_id y"
  shows "x = y"
proof -
  from assms(1) have "inj_on (\<lambda>m. (gm_group_id m, gm_user_id m)) (set ms)"
    by (simp add: unique_members_def distinct_map)
  with assms(2-5) show ?thesis
    by (auto dest: inj_onD)
qed

lemma unique_members_distinct: "unique_members ms \<Longrightarrow> distinct ms"
  by (simp add: unique_members_def distinct_map)

lemma getMember_unique:
  assumes "unique_members ms" and "m \<in> set ms"
  shows "getMember ms (gm_group_id m) (gm_user_id m) = Some m"
proof (cases "getMember ms (gm_group_id m) (gm_user_id m)")
  case None
  with assms(2) show ?thesis
    by (auto simp: getMember_def find_None_iff)
next
  case (Some x)
  then have "x \<in> set ms" "gm_group_id x = gm_group_id m" "gm_user_id x = gm_user_id m"
    by (auto simp: getMember_def find_Some_iff)
  with assms have "x = m"
    by (intro unique_members_eq [of ms x m]) simp_all
  with Some show ?thesis by simp
qed

lemma filter_group_accepted:
  "filter P (filter (\<lambda>m. gm_group_id m = g \<and> gm_status m = Accepted) xs)
   = filter (\<lambda>m. gm_group_id m = g \<and> gm_status m = Accepted \<and> P m) xs"
  by (induction xs) auto

lemma join_member_count:
  "list_all (\<lambda>m. findById us (gm_user_id m) \<noteq> None) xs
   \<Longrightarrow> length (filter (\<lambda>x. P (fst x)) (concat (map (join_member us) xs))) = length (filter P xs)"
  by (induction xs) (auto simp: join_member_def)

lemma getGroupMembers_count:
  assumes "fk_members s"
  shows "length (filter (\<lambda>x. P (fst x)) (getGroupMembers s g))
         = length (filter (\<lambda>m. gm_group_id m = g \<and> gm_status m = Accepted \<and> P m)
                     (group_members s))"
proof -
  let ?ys = "filter (\<lambda>m. gm_group_id m = g \<and> gm_status m = Accepted) (group_members s)"
  let ?xs = "sort_key gm_user_id ?ys"
  from assms have "list_all (\<lambda>m. findById (users s) (gm_user_id m) \<noteq> None) ?xs"
    by (simp add: fk_members_def list_all_iff)
  then have "length (filter (\<lambda>x. P (fst x)) (concat (map (join_member (users s)) ?xs)))
             = length (filter P ?xs)"
    by (rule join_member_count)
  moreover have "length (filter (\<lambda>x. P (fst x)) (getGroupMembers s g))
        = length (filter (\<lambda>x. P (fst x)) (concat (map (join_member (users s)) ?xs)))"
    by (simp add: getGroupMembers_def filter_sort)
  moreover have "length (filter P ?xs) = length (filter P ?ys)"
    by (simp add: filter_sort)
  moreover have "filter P ?ys
        = filter (\<lambda>m. gm_group_id m = g \<and> gm_status m = Accepted \<and> P m) (group_members s)"
    by (rule filter_group_accepted)
  ultimately show ?thesis by simp
qed

lemma getGroupMembers_length:
  assumes "fk_members s"
  shows "length (getGroupMembers s g)
         = length (filter (\<lambda>m. gm_group_id m = g \<and> gm_status m = Accepted) (group_members s))"
  using getGroupMembers_count [OF assms, of "\<lambda>_. True" g] by simp

lemma distinct_singleton_length:
  assumes "distinct xs" and "x \<in> set xs" and "\<forall>y \<in> set xs. y = x"
  shows "length xs = 1"
proof -
  from assms(2,3) have "set xs = {x}" by blast
  then have "card (set xs) = 1" by simp
  moreover from assms(1) have "card (set xs) = length xs"
    by (rule distinct_card)
  ultimately show ?thesis by simp
qed

lemma distinct_two_length:
  assumes "distinct xs" and "x \<in> set xs" and "y \<in> set xs" and "x \<noteq> y"
  shows "length xs > 1"
proof -
  from assms(2,3) have "{x, y} \<subseteq> set xs" by simp
  then have "card {x, y} \<le> card (set xs)"
    by (intro card_mono) simp_all
  moreover from assms(4) have "card {x, y} = 2" by simp
  moreover from assms(1) have "card (set xs) = length xs"
    by (rule distinct_card)
  ultimately show ?thesis by simp
qed

text \<open>
  Claim C1, as the code has it. Let \<open>u\<close> be an accepted member of group \<open>g\<close> with role
  admin, the only accepted admin of \<open>g\<close>, while another accepted member remains. Then the
  leave operation of \<open>u\<close> fails with BadRequest (status 400) and returns the database as it
  was, so the membership row of \<open>u\<close> is not removed. (The membership table satisfies its
  uniqueness constraint and its foreign key into the users table.)
\<close>

theorem leaveGroup_sole_admin:
  assumes "unique_members (group_members s)" and "fk_members s"
    and "m \<in> set (group_members s)" and "gm_group_id m = g" and "gm_user_id m = u"
    and "gm_role m = Admin" and "gm_status m = Accepted"
    and "\<forall>x \<in> set (group_members s).
           gm_group_id x = g \<and> gm_role x = Admin \<and> gm_status x = Accepted \<longrightarrow> gm_user_id x = u"
    and "m2 \<in> set (group_members s)" and "gm_group_id m2 = g" and "gm_user_id m2 \<noteq> u"
    and "gm_status m2 = Accepted"
  shows "leaveGroup s u g = (Inl BadRequest, s)"
proof -
  have d: "distinct (group_members s)"
    using assms(1) by (rule unique_members_distinct)
  have gm: "getMember (group_members s) g u = Some m"
    using getMember_unique [OF assms(1,3)] assms(4,5) by simp
  let ?admins = "filter (\<lambda>x. gm_group_id x = g \<and> gm_status x = Accepted \<and> gm_role x = Admin)
                   (group_members s)"
  have "\<forall>y \<in> set ?admins. y = m"
  proof
    fix y
    assume y: "y \<in> set ?admins"
    with assms(8) have "gm_user_id y = u" by auto
    with y assms(4,5) show "y = m"
      by (intro unique_members_eq [OF assms(1), of y m]) (simp_all add: assms(3))
  qed
  moreover have "m \<in> set ?admins"
    using assms(3,4,6,7) by simp
  moreover have "distinct ?admins"
    using d by simp
  ultimately have "length ?admins = 1"
    by (intro distinct_singleton_length [of ?admins m])
  then have adminCount:
    "length (filter (\<lambda>x. gm_role (fst x) = Admin) (getGroupMembers s g)) = 1"
    using getGroupMembers_count [OF assms(2), of "\<lambda>x. gm_role x = Admin" g] by simp
  let ?acc = "filter (\<lambda>x. gm_group_id x = g \<and> gm_status x = Accepted) (group_members s)"
  have "m \<in> set ?acc" "m2 \<in> set ?acc" "m \<noteq> m2" "distinct ?acc"
    using assms(3,4,5,7,9,10,11,12) d by auto
  then have "length ?acc > 1"
    by (intro distinct_two_length [of ?acc m m2])
  then have many: "length (getGroupMembers s g) > 1"
    using getGroupMembers_length [OF assms(2), of g] by simp
  from gm assms(6) adminCount many show ?thesis
    by (simp add: leaveGroup_def Let_def)
qed

theorem leaveGroup_sole_admin_witness:
  "unique_members (group_members sample_db) \<and> fk_members sample_db
   \<and> hd (group_members sample_db) \<in> set (group_members sample_db)
   \<and> gm_user_id (hd (group_members sample_db)) = 1
   \<and> gm_role (hd (group_members sample_db)) = Admin
   \<and> last (group_members sample_db) \<in> set (group_members sample_db)
   \<and> gm_user_id (last (group_members sample_db)) = 2
   \<and> leaveGroup sample_db 1 1 = (Inl BadRequest, sample_db)"
proof -
  have a1: "unique_members (group_members sample_db)"
    by (simp add: unique_members_def sample_db_def)
  have a2: "fk_members sample_db"
    by (simp add: fk_members_def sample_db_def findById_def sample_users_def)
  have a3: "hd (group_members sample_db) \<in> set (group_members sample_db)"
    and a4: "gm_group_id (hd (group_members sample_db)) = 1"
    and a5: "gm_user_id (hd (group_members sample_db)) = 1"
    and a6: "gm_role (hd (group_members sample_db)) = Admin"
    and a7: "gm_status (hd (group_members sample_db)) = Accepted"
    by (simp_all add: sample_db_def)
  have a8: "\<forall>x \<in> set (group_members sample_db).
           gm_group_id x = 1 \<and> gm_role x = Admin \<and> gm_status x = Accepted \<longrightarrow> gm_user_id x = 1"
    by (simp add: sample_db_def)
  have a9: "last (group_members sample_db) \<in> set (group_members sample_db)"
    and a10: "gm_group_id (last (group_members sample_db)) = 1"
    and a11: "gm_user_id (last (group_members sample_db)) \<noteq> 1"
    and a11': "gm_user_id (last (group_members sample_db)) = 2"
    and a12: "gm_status (last (group_members sample_db)) = Accepted"
    by (simp_all add: sample_db_def)
  from leaveGroup_sole_admin [OF a1 a2 a3 a4 a5 a6 a7 a8 a9 a10 a11 a12]
  have "leaveGroup sample_db 1 1 = (Inl BadRequest, sample_db)" .
  with a1 a2 a3 a5 a6 a9 a11' show ?thesis by simp
qed

lemma sample_members:
  "getGroupMembers sample_db 1
   = [(\<lparr>gm_id = 1, gm_group_id = 1, gm_user_id = 1, gm_role = Admin, gm_status = Accepted,
          joined_at = 8\<rparr>, ''Ann'', ''ann@x.com''),
      (\<lparr>gm_id = 2, gm_group_id = 1, gm_user_id = 2, gm_role = Member, gm_status = Accepted,
          joined_at = 9\<rparr>, ''Bo'', ''bo@x.com'')]"
  by (simp add: getGroupMembers_def join_member_def findById_def sample_db_def sample_users_def)

text \<open>
  Claim C1 as stated fails: Ann is the only admin of a group that Bo has joined, and her
  leave request is answered with status 400, not with Conflict.
\<close>

theorem leaveGroup_sole_admin_counterexample:
  "fst (leaveGroup sample_db 1 1) = Inl BadRequest
   \<and> fst (leaveGroup sample_db 1 1) \<noteq> Inl Conflict
   \<and> http_status BadRequest = 400"
proof -
  have "getMember (group_members sample_db) 1 1 = Some (hd (group_members sample_db))"
    by (simp add: getMember_def sample_db_def)
  moreover have "gm_role (hd (group_members sample_db)) = Admin"
    by (simp add: sample_db_def)
  ultimately have "leaveGroup sample_db 1 1 = (Inl BadRequest, sample_db)"
    by (simp add: leaveGroup_def sample_members)
  then show ?thesis by simp
qed

section \<open>Admin analytics\<close>


lemma authenticateAdmin_admin:
  assumes "bearer_token authHeader = Some t" and "t \<noteq> []" and "verify t = Inr user"
    and "findById (users s) (userId user) = Some adminCheck"
    and "truthy_int (is_admin adminCheck)"
  shows "authenticateAdmin verify s authHeader = Inr user"
  using assms by (simp add: authenticateAdmin_def)

lemma flag_zero_not_admin: "is_admin u = Some 0 \<Longrightarrow> \<not> truthy_int (is_admin u)"
  by simp

lemma flag_not_null: "is_admin u \<noteq> None \<Longrightarrow> (is_admin u = Some 0) = (\<not> truthy_int (is_admin u))"
  by (cases "is_admin u") auto

lemma count_le_non_admins:
  "length (filter (\<lambda>u. is_admin u = Some 0) us) \<le> length (filter (\<lambda>u. \<not> truthy_int (is_admin u)) us)"
  by (induction us) auto

lemma count_eq_non_admins:
  "list_all (\<lambda>u. is_admin u \<noteq> None) us \<Longrightarrow>
   length (filter (\<lambda>u. is_admin u = Some 0) us) = length (filter (\<lambda>u. \<not> truthy_int (is_admin u)) us)"
  by (induction us) (auto simp: flag_not_null)

text \<open>
  Claim C8. Whenever the analytics report is returned, its user count is the number of
  user rows whose admin flag is 0, so that this count and the number of the remaining
  rows add up to the whole table; no user who passes the admin check is counted, and
  when no flag is null the count is exactly the number of users who fail it. Its comment
  count is the number of card comments plus the number of group comments. The report is
  returned to every caller whose token verifies and whose user row carries the admin flag.
\<close>

theorem adminAnalytics_counts:
  "(\<forall>r. adminAnalytics verify s authHeader = Inr r \<longrightarrow>
        totalUsers r = length (filter (\<lambda>u. is_admin u = Some 0) (users s))
      \<and> totalUsers r + length (filter (\<lambda>u. is_admin u \<noteq> Some 0) (users s)) = length (users s)
      \<and> totalUsers r \<le> length (filter (\<lambda>u. \<not> truthy_int (is_admin u)) (users s))
      \<and> (list_all (\<lambda>u. is_admin u \<noteq> None) (users s) \<longrightarrow>
            totalUsers r = length (filter (\<lambda>u. \<not> truthy_int (is_admin u)) (users s)))
      \<and> totalComments r = length (comments s) + length (group_comments s))
   \<and> (\<forall>t user adminCheck.
         bearer_token authHeader = Some t \<and> t \<noteq> [] \<and> verify t = Inr user
         \<and> findById (users s) (userId user) = Some adminCheck \<and> truthy_int (is_admin adminCheck)
         \<longrightarrow> (\<exists>r. adminAnalytics verify s authHeader = Inr r))"
proof (intro conjI allI impI)
  fix r
  assume "adminAnalytics verify s authHeader = Inr r"
  then have tu: "totalUsers r = getTotalUsers s"
    and tc: "totalComments r = getTotalComments s + getTotalGroupComments s"
    by (auto simp: adminAnalytics_def split: sum.splits)
  from tu show u: "totalUsers r = length (filter (\<lambda>u. is_admin u = Some 0) (users s))"
    by (simp add: getTotalUsers_def)
  from u show "totalUsers r + length (filter (\<lambda>u. is_admin u \<noteq> Some 0) (users s)) = length (users s)"
    using sum_length_filter_compl [of "\<lambda>u. is_admin u = Some 0" "users s"] by simp
  from u show "totalUsers r \<le> length (filter (\<lambda>u. \<not> truthy_int (is_admin u)) (users s))"
    by (simp add: count_le_non_admins)
  from tc show "totalComments r = length (comments s) + length (group_comments s)"
    by (simp add: getTotalComments_def getTotalGroupComments_def)
  assume "list_all (\<lambda>u. is_admin u \<noteq> None) (users s)"
  with u show "totalUsers r = length (filter (\<lambda>u. \<not> truthy_int (is_admin u)) (users s))"
    by (simp add: count_eq_non_admins)
next
  fix t user adminCheck
  assume "bearer_token authHeader = Some t \<and> t \<noteq> [] \<and> verify t = Inr user
         \<and> findById (users s) (userId user) = Some adminCheck \<and> truthy_int (is_admin adminCheck)"
  then have "authenticateAdmin verify s authHeader = Inr user"
    by (intro authenticateAdmin_admin [of authHeader t verify user s adminCheck]) simp_all
  then show "\<exists>r. adminAnalytics verify s authHeader = Inr r"
    by (simp add: adminAnalytics_def)
qed

theorem adminAnalytics_counts_witness:
  "bearer_token (Some ''Bearer tok-dee'') = Some ''tok-dee''
   \<and> sample_verify ''tok-dee'' = Inr \<lparr>userId = 4, tok_email = ''dee@x.com''\<rparr>
   \<and> findById (users sample_db) 4 = Some (last sample_users)
   \<and> truthy_int (is_admin (last sample_users))
   \<and> list_all (\<lambda>u. is_admin u \<noteq> None) (users sample_db)
   \<and> length (users sample_db) = 4
   \<and> (\<exists>r. adminAnalytics sample_verify sample_db (Some ''Bearer tok-dee'') = Inr r
          \<and> totalUsers r = 3 \<and> totalComments r = 1)"
proof -
  have b: "bearer_token (Some ''Bearer tok-dee'') = Some ''tok-dee''"
    by (simp add: bearer_token_def)
  have v: "sample_verify ''tok-dee'' = Inr \<lparr>userId = 4, tok_email = ''dee@x.com''\<rparr>"
    by (simp add: sample_verify_def)
  have f: "findById (users sample_db) 4 = Some (last sample_users)"
    by (simp add: findById_def sample_db_def sample_users_def)
  have a: "truthy_int (is_admin (last sample_users))"
    by (simp add: sample_users_def)
  have n: "list_all (\<lambda>u. is_admin u \<noteq> None) (users sample_db)"
    by (simp add: sample_db_def sample_users_def)
  have l: "length (users sample_db) = 4"
    by (simp add: sample_db_def sample_users_def)
  have z: "length (filter (\<lambda>u. is_admin u = Some 0) (users sample_db)) = 3"
    by (simp add: sample_db_def sample_users_def)
  have c: "length (comments sample_db) + length (group_comments sample_db) = 1"
    by (simp add: sample_db_def)
  note t = adminAnalytics_counts [of sample_verify sample_db "Some ''Bearer tok-dee''"]
  from t b v f a obtain r where r: "adminAnalytics sample_verify sample_db (Some ''Bearer tok-dee'') = Inr r"
    by fastforce
  with t z c have "totalUsers r = 3 \<and> totalComments r = 1"
    by simp
  with r b v f a n l show ?thesis by blast
qed

end
